theory Spec2Isabelle
  imports Complex_Main "HOL-Library.Char_ord" "HOL-Library.List_Lexorder" "HOL-Library.Word"
begin

unbundle bit_operations_syntax

section \<open>Data model (package db)\<close>

text \<open>
  The Go structs of the registry. A Go slice field is a \<open>list option\<close>: \<open>None\<close> is the
  nil slice, \<open>Some []\<close> the empty, non-nil slice. Strings are byte strings.
\<close>

record Note =
  NoteTimestamp :: string
  NoteType :: string
  NoteText :: string

record RunResult =
  Timestamp :: string
  Result :: string
  Duration :: string
  Trace :: string

record Tanda =
  ID :: string
  Title :: string
  Status :: string
  File :: string
  Covers :: "string list option"
  DependsOn :: "string list option"
  Notes :: "Note list option"
  RunHistory :: "RunResult list option"
  CreatedAt :: string
  UpdatedAt :: string

text \<open>
  One row of the table \<open>tandas\<close>. The four collection columns hold JSON text. The column
  \<open>file\<close> is read through \<open>sql.NullString\<close>, so it may be NULL (\<open>None\<close>); the other text
  columns are scanned into Go strings. \<open>flakiness_score\<close> is a float64 in the program; it
  is the quotient of two integers of at most 10, modelled by the exact rational.
\<close>

record Row =
  col_id :: string
  col_title :: string
  col_status :: string
  col_file :: "string option"
  col_covers :: string
  col_depends_on :: string
  col_notes :: string
  col_run_history :: string
  col_flakiness_score :: rat
  col_last_run_at :: string
  col_last_run_result :: string
  col_created_at :: string
  col_updated_at :: string

text \<open>
  The package encoding/json is not part of the repository: it is a parameter. A marshal
  function returns \<open>None\<close> for an error. An unmarshal function for a column returns the
  slice the field holds after the call (the program ignores the error); the one for a
  whole line returns \<open>None\<close> for an error.
\<close>

record json =
  marshal_strs :: "string list option \<Rightarrow> string option"
  unmarshal_strs :: "string \<Rightarrow> string list option"
  marshal_notes :: "Note list option \<Rightarrow> string option"
  unmarshal_notes :: "string \<Rightarrow> Note list option"
  marshal_runs :: "RunResult list option \<Rightarrow> string option"
  unmarshal_runs :: "string \<Rightarrow> RunResult list option"
  marshal_tanda :: "Tanda \<Rightarrow> string option"
  unmarshal_tanda :: "string \<Rightarrow> Tanda option"

text \<open>The calls to the operating system and to the database that the program lets fail.\<close>

datatype fault =
    FOpen | FClearAll | FUpsert string | FGetAll
  | FCreateTemp | FWrite string | FWriteNewline string | FFlush | FCloseTemp | FRename
  | FDbOpen | FListen | FWritePID | FWriteLock | FEncode int

datatype error =
    ErrOpenJSONL | ErrClearDatabase | ErrReadJSONL | ErrExec
  | ErrGetTandas | ErrCreateTemp | ErrMarshal string | ErrWrite string | ErrWriteNewline
  | ErrFlush | ErrCloseTemp | ErrRename
  | ErrInvalidInterval | ErrAlreadyRunning string | ErrOpenDatabase | ErrCreateSocket
  | ErrWritePID | ErrWriteLock

section \<open>Store (package db)\<close>

definition slice :: "'a list option \<Rightarrow> 'a list" where
  "slice s = (case s of None \<Rightarrow> [] | Some xs \<Rightarrow> xs)"

text \<open>\<open>x, _ := json.Marshal(v); string(x)\<close>: on an error the bytes are nil, the text empty.\<close>

definition text_of :: "string option \<Rightarrow> string" where
  "text_of b = (case b of None \<Rightarrow> [] | Some s \<Rightarrow> s)"

text \<open>The loop of \<open>calculateFlakiness\<close> over the window, counting the failures.\<close>

fun count_failures :: "RunResult list \<Rightarrow> nat \<Rightarrow> nat" where
  "count_failures [] failures = failures"
| "count_failures (run # rest) failures =
     count_failures rest (if Result run = ''fail'' then failures + 1 else failures)"

definition calculateFlakiness :: "RunResult list option \<Rightarrow> rat" where
  "calculateFlakiness history =
     (if length (slice history) = 0 then 0
      else
        let window = (if length (slice history) > 10
                      then drop (length (slice history) - 10) (slice history)
                      else slice history);
            failures = count_failures window 0
        in of_nat failures / of_nat (length window))"

text \<open>The row that \<open>UpsertTanda\<close> binds to the thirteen placeholders of its statement.\<close>

definition new_row :: "json \<Rightarrow> Tanda \<Rightarrow> Row" where
  "new_row J t =
     (let coversJSON = text_of (marshal_strs J (Covers t));
          depsJSON = text_of (marshal_strs J (DependsOn t));
          notesJSON = text_of (marshal_notes J (Notes t));
          runHistoryJSON = text_of (marshal_runs J (RunHistory t));
          flakiness = calculateFlakiness (RunHistory t);
          lastRunAt = (if length (slice (RunHistory t)) > 0
                       then Timestamp (last (slice (RunHistory t))) else []);
          lastRunResult = (if length (slice (RunHistory t)) > 0
                           then Result (last (slice (RunHistory t))) else [])
      in \<lparr>col_id = ID t, col_title = Title t, col_status = Status t,
          col_file = Some (File t), col_covers = coversJSON, col_depends_on = depsJSON,
          col_notes = notesJSON, col_run_history = runHistoryJSON,
          col_flakiness_score = flakiness, col_last_run_at = lastRunAt,
          col_last_run_result = lastRunResult,
          col_created_at = CreatedAt t, col_updated_at = UpdatedAt t\<rparr>)"

text \<open>
  \<open>ON CONFLICT(id) DO UPDATE SET ...\<close>: the eleven columns the statement lists are taken
  from the excluded row; \<open>id\<close> and \<open>created_at\<close> are not in the list.
\<close>

definition on_conflict_update :: "Row \<Rightarrow> Row \<Rightarrow> Row" where
  "on_conflict_update old excluded =
     old\<lparr>col_title := col_title excluded,
         col_status := col_status excluded,
         col_file := col_file excluded,
         col_covers := col_covers excluded,
         col_depends_on := col_depends_on excluded,
         col_notes := col_notes excluded,
         col_run_history := col_run_history excluded,
         col_flakiness_score := col_flakiness_score excluded,
         col_last_run_at := col_last_run_at excluded,
         col_last_run_result := col_last_run_result excluded,
         col_updated_at := col_updated_at excluded\<rparr>"

text \<open>
  The table is the list of its rows in rowid order; \<open>id\<close> is the primary key. An insert
  appends; a conflict updates the row in place.
\<close>

fun insert_on_conflict :: "Row \<Rightarrow> Row list \<Rightarrow> Row list" where
  "insert_on_conflict e [] = [e]"
| "insert_on_conflict e (r # rs) =
     (if col_id r = col_id e then on_conflict_update r e # rs
      else r # insert_on_conflict e rs)"

definition UpsertTanda :: "(fault \<Rightarrow> bool) \<Rightarrow> json \<Rightarrow> Tanda \<Rightarrow> Row list \<Rightarrow> error + Row list" where
  "UpsertTanda fails J t tbl =
     (if fails (FUpsert (ID t)) then Inl ErrExec
      else Inr (insert_on_conflict (new_row J t) tbl))"

text \<open>\<open>if t.Covers == nil { t.Covers = []string{} }\<close>, for any element type.\<close>

definition nonnil :: "'a list option \<Rightarrow> 'a list option" where
  "nonnil s = (if s = None then Some [] else s)"

text \<open>The body of the loop of \<open>GetAllTandas\<close>: one scanned row becomes one record.\<close>

definition scan_row :: "json \<Rightarrow> Row \<Rightarrow> Tanda" where
  "scan_row J r =
     \<lparr>ID = col_id r, Title = col_title r, Status = col_status r,
      File = (case col_file r of None \<Rightarrow> [] | Some f \<Rightarrow> f),
      Covers = nonnil (unmarshal_strs J (col_covers r)),
      DependsOn = nonnil (unmarshal_strs J (col_depends_on r)),
      Notes = nonnil (unmarshal_notes J (col_notes r)),
      RunHistory = nonnil (unmarshal_runs J (col_run_history r)),
      CreatedAt = col_created_at r, UpdatedAt = col_updated_at r\<rparr>"

text \<open>
  \<open>ORDER BY updated_at DESC\<close> on a TEXT column compares bytes. SQLite does not document
  the order of rows with equal keys; the program returns them in rowid order, and so does
  this function.
\<close>

definition order_by_updated_at_desc :: "Row list \<Rightarrow> Row list" where
  "order_by_updated_at_desc tbl = rev (sort_key col_updated_at (rev tbl))"

definition GetAllTandas :: "(fault \<Rightarrow> bool) \<Rightarrow> json \<Rightarrow> Row list \<Rightarrow> error + Tanda list" where
  "GetAllTandas fails J tbl =
     (if fails FGetAll then Inl ErrGetTandas
      else Inr (map (scan_row J) (order_by_updated_at_desc tbl)))"

definition DeleteTanda :: "string \<Rightarrow> Row list \<Rightarrow> Row list" where
  "DeleteTanda i tbl = filter (\<lambda>r. col_id r \<noteq> i) tbl"

definition ClearAll :: "(fault \<Rightarrow> bool) \<Rightarrow> Row list \<Rightarrow> error + Row list" where
  "ClearAll fails tbl = (if fails FClearAll then Inl ErrClearDatabase else Inr [])"

section \<open>The environment\<close>

text \<open>
  What the program asks of its libraries and of the operating system, as parameters:
  the JSON codec, the calls that fail, the clock, the candidate names
  \<open>os.CreateTemp(dir, pattern)\<close> tries in order, and the path functions.
\<close>

record env =
  codec :: json
  faults :: "fault \<Rightarrow> bool"
  now :: nat
  TempNames :: "string \<Rightarrow> string \<Rightarrow> string list"
  Dir :: "string \<Rightarrow> string"
  Base :: "string \<Rightarrow> string"
  Join :: "string \<Rightarrow> string \<Rightarrow> string"
  Getpid :: int
  Itoa :: "int \<Rightarrow> string"
  LockJSON :: string
  ParseDuration :: "string \<Rightarrow> int option"
  DurationString :: "int \<Rightarrow> string"
  IsDir :: "string \<Rightarrow> bool"
  WatcherFails :: bool
  TraceWatcherFails :: bool
  Cause :: "error \<Rightarrow> string"

text \<open>
  The files of the working directory (path to contents) and the table of the database.
\<close>

record world =
  files :: "string \<rightharpoonup> string"
  table :: "Row list"

section \<open>Synchronizer (package sync)\<close>

record Syncer =
  jsonlPath :: string
  lastSync :: nat

definition New :: "string \<Rightarrow> Syncer" where
  "New path = \<lparr>jsonlPath = path, lastSync = 0\<rparr>"

text \<open>
  \<open>bufio.Scanner\<close> with \<open>bufio.ScanLines\<close>: the data is cut at every line feed, a last
  piece with no line feed is a line when it is not empty, and one trailing carriage return
  is dropped from each line. \<open>scanner.Buffer(buf, 1024*1024)\<close> bounds the buffer: a line
  whose bytes, before its line feed, do not fit in less than \<open>1024 * 1024\<close> bytes stops the
  scan with \<open>ErrTooLong\<close>; the lines before it have been delivered.
\<close>

definition maxTokenSize :: nat where
  "maxTokenSize = 1024 * 1024"

fun ScanLines :: "string \<Rightarrow> string \<Rightarrow> string list" where
  "ScanLines acc [] = (if acc = [] then [] else [rev acc])"
| "ScanLines acc (c # data) =
     (if c = CHR 0x0A then rev acc # ScanLines [] data else ScanLines (c # acc) data)"

definition dropCR :: "string \<Rightarrow> string" where
  "dropCR data = (if data \<noteq> [] \<and> last data = CHR 0x0D then butlast data else data)"

fun Scan :: "string list \<Rightarrow> string list \<times> bool" where
  "Scan [] = ([], False)"
| "Scan (raw # rest) =
     (if maxTokenSize \<le> length raw then ([], True)
      else (dropCR raw # fst (Scan rest), snd (Scan rest)))"

datatype warning = ParseWarning nat | UpsertWarning string

text \<open>The four \<open>if ... == nil\<close> of the import loop.\<close>

definition init_slices :: "Tanda \<Rightarrow> Tanda" where
  "init_slices tanda =
     tanda\<lparr>Covers := nonnil (Covers tanda),
           DependsOn := nonnil (DependsOn tanda),
           Notes := nonnil (Notes tanda),
           RunHistory := nonnil (RunHistory tanda)\<rparr>"

text \<open>
  The state of the import loop: the table, the warnings printed so far, and the records
  handed to \<open>UpsertTanda\<close> so far (kept to state what was upserted).
\<close>

record import_state =
  st_table :: "Row list"
  st_warnings :: "warning list"
  st_upserts :: "Tanda list"

fun import_loop :: "env \<Rightarrow> string list \<Rightarrow> nat \<Rightarrow> import_state \<Rightarrow> import_state" where
  "import_loop E [] lineNum st = st"
| "import_loop E (line # rest) lineNum st =
     (if line = [] then import_loop E rest (lineNum + 1) st
      else
        (case unmarshal_tanda (codec E) line of
           None \<Rightarrow>
             import_loop E rest (lineNum + 1)
               (st\<lparr>st_warnings := st_warnings st @ [ParseWarning (lineNum + 1)]\<rparr>)
         | Some parsed \<Rightarrow>
             (let tanda = init_slices parsed in
                (case UpsertTanda (faults E) (codec E) tanda (st_table st) of
                   Inl e \<Rightarrow>
                     import_loop E rest (lineNum + 1)
                       (st\<lparr>st_warnings := st_warnings st @ [UpsertWarning (ID tanda)],
                           st_upserts := st_upserts st @ [tanda]\<rparr>)
                 | Inr tbl \<Rightarrow>
                     import_loop E rest (lineNum + 1)
                       (st\<lparr>st_table := tbl, st_upserts := st_upserts st @ [tanda]\<rparr>)))))"

record import_outcome =
  imp_err :: "error option"
  imp_syncer :: Syncer
  imp_world :: world
  imp_warnings :: "warning list"
  imp_upserts :: "Tanda list"

definition ImportFromJSONL :: "env \<Rightarrow> Syncer \<Rightarrow> world \<Rightarrow> import_outcome" where
  "ImportFromJSONL E s w =
     (case files w (jsonlPath s) of
        None \<Rightarrow>
          \<lparr>imp_err = None, imp_syncer = s, imp_world = w, imp_warnings = [], imp_upserts = []\<rparr>
      | Some content \<Rightarrow>
          if faults E FOpen then
            \<lparr>imp_err = Some ErrOpenJSONL, imp_syncer = s, imp_world = w,
             imp_warnings = [], imp_upserts = []\<rparr>
          else
            (case ClearAll (faults E) (table w) of
               Inl e \<Rightarrow>
                 \<lparr>imp_err = Some ErrClearDatabase, imp_syncer = s, imp_world = w,
                  imp_warnings = [], imp_upserts = []\<rparr>
             | Inr cleared \<Rightarrow>
                 (let scanned = Scan (ScanLines [] content);
                      st = import_loop E (fst scanned) 0
                             \<lparr>st_table = cleared, st_warnings = [], st_upserts = []\<rparr>
                  in if snd scanned then
                       \<lparr>imp_err = Some ErrReadJSONL, imp_syncer = s,
                        imp_world = w\<lparr>table := st_table st\<rparr>,
                        imp_warnings = st_warnings st, imp_upserts = st_upserts st\<rparr>
                     else
                       \<lparr>imp_err = None, imp_syncer = s\<lparr>lastSync := now E\<rparr>,
                        imp_world = w\<lparr>table := st_table st\<rparr>,
                        imp_warnings = st_warnings st, imp_upserts = st_upserts st\<rparr>)))"

text \<open>
  The loop of \<open>ExportToJSONL\<close>: each record is marshalled and written, with a line feed,
  to the buffered writer.
\<close>

fun write_all :: "env \<Rightarrow> Tanda list \<Rightarrow> string \<Rightarrow> error + string" where
  "write_all E [] buf = Inr buf"
| "write_all E (t # ts) buf =
     (case marshal_tanda (codec E) t of
        None \<Rightarrow> Inl (ErrMarshal (ID t))
      | Some data \<Rightarrow>
          if faults E (FWrite (ID t)) then Inl (ErrWrite (ID t))
          else if faults E (FWriteNewline (ID t)) then Inl ErrWriteNewline
          else write_all E ts (buf @ data @ [CHR 0x0A]))"

text \<open>
  \<open>os.CreateTemp\<close> creates the first of its candidate names that does not exist yet;
  \<open>os.Remove\<close> unlinks a path; \<open>os.Rename\<close> moves a file over the new path in one step.
\<close>

definition CreateTemp :: "env \<Rightarrow> (string \<rightharpoonup> string) \<Rightarrow> string \<Rightarrow> string \<Rightarrow> string option" where
  "CreateTemp E fs d pattern =
     (if faults E FCreateTemp then None else find (\<lambda>p. fs p = None) (TempNames E d pattern))"

definition Remove :: "(string \<rightharpoonup> string) \<Rightarrow> string \<Rightarrow> (string \<rightharpoonup> string)" where
  "Remove fs p = fs(p := None)"

definition Rename :: "(string \<rightharpoonup> string) \<Rightarrow> string \<Rightarrow> string \<Rightarrow> (string \<rightharpoonup> string)" where
  "Rename fs oldpath newpath =
     (case fs oldpath of
        None \<Rightarrow> fs
      | Some c \<Rightarrow> if oldpath = newpath then fs else (fs(newpath \<mapsto> c))(oldpath := None))"

text \<open>
  \<open>exp_trace\<close> lists the states of the file system the call passes through, the first
  being the state before the call and the last the state after it. The buffered writer
  may hand part of its buffer to the temporary file before the flush; the trace shows
  that file empty until the flush, which changes nothing at any other path.
\<close>

record export_outcome =
  exp_err :: "error option"
  exp_syncer :: Syncer
  exp_world :: world
  exp_trace :: "(string \<rightharpoonup> string) list"

definition ExportToJSONL :: "env \<Rightarrow> Syncer \<Rightarrow> world \<Rightarrow> export_outcome" where
  "ExportToJSONL E s w =
     (case GetAllTandas (faults E) (codec E) (table w) of
        Inl e \<Rightarrow>
          \<lparr>exp_err = Some ErrGetTandas, exp_syncer = s, exp_world = w, exp_trace = [files w]\<rparr>
      | Inr tandas \<Rightarrow>
          (case CreateTemp E (files w) (Dir E (jsonlPath s)) ''issues-*.jsonl.tmp'' of
             None \<Rightarrow>
               \<lparr>exp_err = Some ErrCreateTemp, exp_syncer = s, exp_world = w,
                exp_trace = [files w]\<rparr>
           | Some tmpPath \<Rightarrow>
               (let fs1 = (files w)(tmpPath \<mapsto> []) in
                  (case write_all E tandas [] of
                     Inl e \<Rightarrow>
                       \<lparr>exp_err = Some e, exp_syncer = s,
                        exp_world = w\<lparr>files := Remove fs1 tmpPath\<rparr>,
                        exp_trace = [files w, fs1, Remove fs1 tmpPath]\<rparr>
                   | Inr buf \<Rightarrow>
                       if faults E FFlush then
                         \<lparr>exp_err = Some ErrFlush, exp_syncer = s,
                          exp_world = w\<lparr>files := Remove fs1 tmpPath\<rparr>,
                          exp_trace = [files w, fs1, Remove fs1 tmpPath]\<rparr>
                       else
                         (let fs2 = fs1(tmpPath \<mapsto> buf) in
                            if faults E FCloseTemp then
                              \<lparr>exp_err = Some ErrCloseTemp, exp_syncer = s,
                               exp_world = w\<lparr>files := Remove fs2 tmpPath\<rparr>,
                               exp_trace = [files w, fs1, fs2, Remove fs2 tmpPath]\<rparr>
                            else if faults E FRename then
                              \<lparr>exp_err = Some ErrRename, exp_syncer = s,
                               exp_world = w\<lparr>files := Remove fs2 tmpPath\<rparr>,
                               exp_trace = [files w, fs1, fs2, Remove fs2 tmpPath]\<rparr>
                            else
                              \<lparr>exp_err = None, exp_syncer = s\<lparr>lastSync := now E\<rparr>,
                               exp_world = w\<lparr>files := Rename fs2 tmpPath (jsonlPath s)\<rparr>,
                               exp_trace = [files w, fs1, fs2,
                                            Rename fs2 tmpPath (jsonlPath s)]\<rparr>)))))"

section \<open>File watcher (package watch)\<close>

text \<open>
  \<open>fsnotify.Op\<close> is a bit mask in a \<open>uint32\<close>; \<open>Create\<close> is bit 0 and \<open>Write\<close> bit 1.
\<close>

definition fsnotify_Create :: "32 word" where
  "fsnotify_Create = 1"

definition fsnotify_Write :: "32 word" where
  "fsnotify_Write = 2"

record Event =
  Name :: string
  Op :: "32 word"

record Watcher =
  filePath :: string
  debounce :: nat

text \<open>Durations are in nanoseconds, as \<open>time.Duration\<close> is.\<close>

definition Millisecond :: nat where
  "Millisecond = 1000000"

definition watch_New :: "string \<Rightarrow> Watcher" where
  "watch_New path = \<lparr>filePath = path, debounce = 500 * Millisecond\<rparr>"

definition SetDebounce :: "Watcher \<Rightarrow> nat \<Rightarrow> Watcher" where
  "SetDebounce w d = w\<lparr>debounce := d\<rparr>"

text \<open>
  What one \<open>select\<close> of the loop of \<open>Start\<close> returns with: an event or an error taken from
  its channel, a channel found closed (\<open>ok\<close> false), or the closed channel \<open>done\<close>.
  \<open>Stop\<close> closes \<open>done\<close> and then the fsnotify watcher, which closes the two other channels.
\<close>

datatype received = GotEvent Event | EventsClosed | GotError | ErrorsClosed | DoneClosed

text \<open>
  The local variable \<open>timer\<close> and the clock: \<open>timer_set\<close> says that the variable is not nil,
  \<open>pending\<close> holds the time at which the timer it points to will run the callback, when
  that timer has neither run nor been stopped, and \<open>fired\<close> lists the times at which the
  callback has run. A timer due at a time not later than the time of a \<open>select\<close> has run.
\<close>

record loop_state =
  timer_set :: bool
  pending :: "nat option"
  fired :: "nat list"

definition elapse :: "nat \<Rightarrow> loop_state \<Rightarrow> loop_state" where
  "elapse t st =
     (case pending st of
        None \<Rightarrow> st
      | Some due \<Rightarrow> if due \<le> t then st\<lparr>pending := None, fired := fired st @ [due]\<rparr> else st)"

definition timer_Stop :: "loop_state \<Rightarrow> loop_state" where
  "timer_Stop st = st\<lparr>pending := None\<rparr>"

definition AfterFunc :: "nat \<Rightarrow> loop_state \<Rightarrow> loop_state" where
  "AfterFunc due st = st\<lparr>timer_set := True, pending := Some due\<rparr>"

definition stop_if_set :: "loop_state \<Rightarrow> loop_state" where
  "stop_if_set st = (if timer_set st then timer_Stop st else st)"

text \<open>
  The loop of \<open>Start\<close> over what its successive \<open>select\<close>s return, each with its time.
  When the list ends the goroutine waits in \<open>select\<close>.
\<close>

fun Start :: "env \<Rightarrow> Watcher \<Rightarrow> (nat \<times> received) list \<Rightarrow> loop_state \<Rightarrow> loop_state" where
  "Start E w [] st = st"
| "Start E w ((t, r) # rest) st =
     (case r of
        GotEvent event \<Rightarrow>
          if Base E (Name event) \<noteq> Base E (filePath w) then Start E w rest (elapse t st)
          else if Op event AND (fsnotify_Write OR fsnotify_Create) = 0
          then Start E w rest (elapse t st)
          else Start E w rest (AfterFunc (t + debounce w) (stop_if_set (elapse t st)))
      | EventsClosed \<Rightarrow> elapse t st
      | GotError \<Rightarrow> Start E w rest (elapse t st)
      | ErrorsClosed \<Rightarrow> elapse t st
      | DoneClosed \<Rightarrow> stop_if_set (elapse t st))"

definition no_timer :: loop_state where
  "no_timer = \<lparr>timer_set = False, pending = None, fired = []\<rparr>"

text \<open>The times at which the callback runs: those past, and that of the pending timer.\<close>

definition callbacks :: "loop_state \<Rightarrow> nat list" where
  "callbacks st = fired st @ (case pending st of None \<Rightarrow> [] | Some due \<Rightarrow> [due])"

section \<open>Request server (package rpc)\<close>

definition socketName :: string where
  "socketName = ''td.sock''"

definition pidFileName :: string where
  "pidFileName = ''daemon.pid''"

definition lockFileName :: string where
  "lockFileName = ''daemon.lock''"

record RPCRequest =
  Method :: string
  Params :: string
  ReqID :: int

datatype result = Text string | StatusMap bool int string

record RPCResponse =
  RespResult :: "result option"
  RespError :: string
  RespID :: int

record Daemon =
  dir :: string
  interval :: int
  syncer :: Syncer
  watcher :: "Watcher option"
  traceWatcher :: bool
  done_closed :: bool

text \<open>
  \<open>err.Error()\<close>: the text the program wraps the cause in; the cause's own text comes
  from a library.
\<close>

fun Error_text :: "env \<Rightarrow> error \<Rightarrow> string" where
  "Error_text E ErrOpenJSONL = ''failed to open JSONL: '' @ Cause E ErrOpenJSONL"
| "Error_text E ErrClearDatabase = ''failed to clear database: '' @ Cause E ErrClearDatabase"
| "Error_text E ErrReadJSONL = ''error reading JSONL: '' @ Cause E ErrReadJSONL"
| "Error_text E ErrGetTandas = ''failed to get tandas: '' @ Cause E ErrGetTandas"
| "Error_text E ErrCreateTemp = ''failed to create temp file: '' @ Cause E ErrCreateTemp"
| "Error_text E (ErrMarshal i) =
     ''failed to marshal tanda '' @ i @ '': '' @ Cause E (ErrMarshal i)"
| "Error_text E (ErrWrite i) = ''failed to write tanda '' @ i @ '': '' @ Cause E (ErrWrite i)"
| "Error_text E ErrWriteNewline = ''failed to write newline: '' @ Cause E ErrWriteNewline"
| "Error_text E ErrFlush = ''failed to flush: '' @ Cause E ErrFlush"
| "Error_text E ErrCloseTemp = ''failed to close temp file: '' @ Cause E ErrCloseTemp"
| "Error_text E ErrRename = ''failed to rename: '' @ Cause E ErrRename"
| "Error_text E ErrExec = Cause E ErrExec"
| "Error_text E ErrInvalidInterval = ''invalid interval: '' @ Cause E ErrInvalidInterval"
| "Error_text E (ErrAlreadyRunning p) = ''daemon already running (socket exists: '' @ p @ '')''"
| "Error_text E ErrOpenDatabase = ''failed to open database: '' @ Cause E ErrOpenDatabase"
| "Error_text E ErrCreateSocket = ''failed to create socket: '' @ Cause E ErrCreateSocket"
| "Error_text E ErrWritePID = ''failed to write PID file: '' @ Cause E ErrWritePID"
| "Error_text E ErrWriteLock = ''failed to write lock file: '' @ Cause E ErrWriteLock"

definition handleRequest :: "env \<Rightarrow> Daemon \<Rightarrow> world \<Rightarrow> RPCRequest \<Rightarrow> RPCResponse \<times> Daemon \<times> world" where
  "handleRequest E d w req =
     (if Method req = ''ping'' then
        (\<lparr>RespResult = Some (Text ''pong''), RespError = [], RespID = ReqID req\<rparr>, d, w)
      else if Method req = ''sync'' then
        (let out = ExportToJSONL E (syncer d) w in
           (case exp_err out of
              Some err \<Rightarrow>
                (\<lparr>RespResult = None, RespError = Error_text E err, RespID = ReqID req\<rparr>,
                 d\<lparr>syncer := exp_syncer out\<rparr>, exp_world out)
            | None \<Rightarrow>
                (\<lparr>RespResult = Some (Text ''synced''), RespError = [], RespID = ReqID req\<rparr>,
                 d\<lparr>syncer := exp_syncer out\<rparr>, exp_world out)))
      else if Method req = ''import'' then
        (let out = ImportFromJSONL E (syncer d) w in
           (case imp_err out of
              Some err \<Rightarrow>
                (\<lparr>RespResult = None, RespError = Error_text E err, RespID = ReqID req\<rparr>,
                 d\<lparr>syncer := imp_syncer out\<rparr>, imp_world out)
            | None \<Rightarrow>
                (\<lparr>RespResult = Some (Text ''imported''), RespError = [], RespID = ReqID req\<rparr>,
                 d\<lparr>syncer := imp_syncer out\<rparr>, imp_world out)))
      else if Method req = ''status'' then
        (\<lparr>RespResult = Some (StatusMap True (Getpid E) (DurationString E (interval d))),
          RespError = [], RespID = ReqID req\<rparr>, d, w)
      else
        (\<lparr>RespResult = None, RespError = ''unknown method: '' @ Method req,
          RespID = ReqID req\<rparr>, d, w))"

text \<open>
  What \<open>decoder.Decode\<close> returns, call after call, on one connection. The loop of
  \<open>handleConnection\<close> answers each request and returns at the first decode error, end of
  input or encode error; when the list ends it waits in \<open>Decode\<close>.
\<close>

datatype decoded = Request RPCRequest | DecodeError | EOF

fun handleConnection :: "env \<Rightarrow> decoded list \<Rightarrow> Daemon \<Rightarrow> world \<Rightarrow> RPCResponse list \<times> Daemon \<times> world" where
  "handleConnection E [] d w = ([], d, w)"
| "handleConnection E (DecodeError # rest) d w = ([], d, w)"
| "handleConnection E (EOF # rest) d w = ([], d, w)"
| "handleConnection E (Request req # rest) d w =
     (case handleRequest E d w req of
        (resp, d', w') \<Rightarrow>
          if faults E (FEncode (ReqID req)) then ([], d', w')
          else (case handleConnection E rest d' w' of
                  (resps, d'', w'') \<Rightarrow> (resp # resps, d'', w'')))"

text \<open>
  \<open>db.Open\<close> creates the database file when it is absent, with an empty table; a failed
  open is taken to leave nothing behind.
\<close>

definition db_Open :: "env \<Rightarrow> string \<Rightarrow> world \<Rightarrow> error + world" where
  "db_Open E path w =
     (if faults E FDbOpen then Inl ErrOpenDatabase
      else if files w path = None then Inr (w\<lparr>files := (files w)(path \<mapsto> []), table := []\<rparr>)
      else Inr w)"

text \<open>
  \<open>StartDaemon\<close> up to the point where it starts its goroutines and accepts connections.
  \<open>os.Stat(socketPath)\<close> succeeds when the path exists. Closing the listener unlinks the
  socket file that \<open>net.Listen\<close> created.
\<close>

definition StartDaemon :: "env \<Rightarrow> string \<Rightarrow> string \<Rightarrow> world \<Rightarrow> (error + Daemon) \<times> world" where
  "StartDaemon E d intervalStr w =
     (case ParseDuration E intervalStr of
        None \<Rightarrow> (Inl ErrInvalidInterval, w)
      | Some ival \<Rightarrow>
          (let socketPath = Join E d socketName;
               pidPath = Join E d pidFileName;
               lockPath = Join E d lockFileName;
               dbPath = Join E d ''db.sqlite'';
               path = Join E d ''issues.jsonl''
           in if files w socketPath \<noteq> None then (Inl (ErrAlreadyRunning socketPath), w)
              else
                (case db_Open E dbPath w of
                   Inl e \<Rightarrow> (Inl ErrOpenDatabase, w)
                 | Inr w1 \<Rightarrow>
                     (let imp = ImportFromJSONL E (New path) w1;
                          w2 = imp_world imp
                      in if faults E FListen then (Inl ErrCreateSocket, w2)
                         else
                           (let w3 = w2\<lparr>files := (files w2)(socketPath \<mapsto> [])\<rparr> in
                              if faults E FWritePID then
                                (Inl ErrWritePID, w3\<lparr>files := Remove (files w3) socketPath\<rparr>)
                              else
                                (let w4 = w3\<lparr>files := (files w3)(pidPath \<mapsto> Itoa E (Getpid E))\<rparr> in
                                   if faults E FWriteLock then
                                     (Inl ErrWriteLock,
                                      w4\<lparr>files := Remove (Remove (files w4) pidPath) socketPath\<rparr>)
                                   else
                                     (let w5 = w4\<lparr>files := (files w4)(lockPath \<mapsto> LockJSON E)\<rparr>;
                                          traceDir = Join E (Join E d ''..'') ''test-results''
                                      in (Inr \<lparr>dir = d, interval = ival,
                                               syncer = imp_syncer imp,
                                               watcher = (if WatcherFails E then None
                                                          else Some (watch_New path)),
                                               traceWatcher = (IsDir E traceDir \<and>
                                                               \<not> TraceWatcherFails E),
                                               done_closed = False\<rparr>, w5))))))))"

text \<open>
  \<open>Shutdown\<close> is straight-line code: its statements with an effect, in program order.
\<close>

datatype action =
    CloseDone | StopWatcher | StopTraceWatcher | CloseListener | CloseStore
  | RemoveFile string | Exit int

definition Shutdown :: "env \<Rightarrow> Daemon \<Rightarrow> action list" where
  "Shutdown E d =
     [CloseDone]
     @ (if watcher d \<noteq> None then [StopWatcher] else [])
     @ (if traceWatcher d then [StopTraceWatcher] else [])
     @ [CloseListener, CloseStore,
        RemoveFile (Join E (dir d) socketName),
        RemoveFile (Join E (dir d) pidFileName),
        RemoveFile (Join E (dir d) lockFileName),
        Exit 0]"

text \<open>
  The process once the daemon runs. One goroutine waits for a signal on \<open>sigChan\<close> (a
  channel of capacity 1) and then calls \<open>Shutdown\<close>: it receives at most once. Closing a
  channel that is closed already panics. \<open>os.Exit\<close> ends the process.
\<close>

datatype status = Running | Exited int | Panicked

record process =
  proc_daemon :: Daemon
  proc_world :: world
  proc_status :: status
  sig_waiting :: bool
  sig_buffered :: nat
  todo :: "action list"
  performed :: "action list"
  watcher_done_closed :: bool
  trace_done_closed :: bool
  listener_closed :: bool
  store_closed :: bool

definition started :: "Daemon \<Rightarrow> world \<Rightarrow> process" where
  "started d w =
     \<lparr>proc_daemon = d\<lparr>done_closed := False\<rparr>, proc_world = w, proc_status = Running,
      sig_waiting = True, sig_buffered = 0, todo = [], performed = [],
      watcher_done_closed = False, trace_done_closed = False,
      listener_closed = False, store_closed = False\<rparr>"

fun perform :: "env \<Rightarrow> action \<Rightarrow> process \<Rightarrow> process" where
  "perform E CloseDone p =
     (if done_closed (proc_daemon p) then p\<lparr>proc_status := Panicked\<rparr>
      else p\<lparr>proc_daemon := (proc_daemon p)\<lparr>done_closed := True\<rparr>\<rparr>)"
| "perform E StopWatcher p =
     (if watcher_done_closed p then p\<lparr>proc_status := Panicked\<rparr>
      else p\<lparr>watcher_done_closed := True\<rparr>)"
| "perform E StopTraceWatcher p =
     (if trace_done_closed p then p\<lparr>proc_status := Panicked\<rparr>
      else p\<lparr>trace_done_closed := True\<rparr>)"
| "perform E CloseListener p =
     (if listener_closed p then p
      else p\<lparr>listener_closed := True,
             proc_world := (proc_world p)\<lparr>files :=
               Remove (files (proc_world p)) (Join E (dir (proc_daemon p)) socketName)\<rparr>\<rparr>)"
| "perform E CloseStore p = p\<lparr>store_closed := True\<rparr>"
| "perform E (RemoveFile path) p =
     p\<lparr>proc_world := (proc_world p)\<lparr>files := Remove (files (proc_world p)) path\<rparr>\<rparr>"
| "perform E (Exit code) p = p\<lparr>proc_status := Exited code\<rparr>"

text \<open>
  A signal is delivered by the operating system; a step runs the next statement of the
  call of \<open>Shutdown\<close> in progress. \<open>StartDaemon\<close> itself sits in
  \<open>acceptConnections\<close>, which runs on the goroutine of \<open>main\<close>. When \<open>Accept\<close> returns an
  error (it does once the listener is closed) and \<open>done\<close> is closed, the loop returns,
  \<open>StartDaemon\<close> returns \<open>nil\<close> and \<open>main\<close> ends, which ends the process with status 0
  whatever \<open>Shutdown\<close> has left to do. When \<open>done\<close> is open the loop prints the error and
  goes on.
\<close>

datatype stimulus = Signal | Step | AcceptFails

fun react :: "env \<Rightarrow> process \<Rightarrow> stimulus \<Rightarrow> process" where
  "react E p Signal =
     (if proc_status p \<noteq> Running then p
      else if sig_waiting p then p\<lparr>sig_waiting := False, todo := Shutdown E (proc_daemon p)\<rparr>
      else if sig_buffered p < 1 then p\<lparr>sig_buffered := sig_buffered p + 1\<rparr>
      else p)"
| "react E p Step =
     (if proc_status p \<noteq> Running then p
      else (case todo p of
              [] \<Rightarrow> p
            | a # rest \<Rightarrow> perform E a (p\<lparr>todo := rest, performed := performed p @ [a]\<rparr>)))"
| "react E p AcceptFails =
     (if proc_status p \<noteq> Running then p
      else if done_closed (proc_daemon p) then p\<lparr>proc_status := Exited 0\<rparr>
      else p)"

definition run :: "env \<Rightarrow> stimulus list \<Rightarrow> process \<Rightarrow> process" where
  "run E stimuli p = foldl (react E) p stimuli"

section \<open>Example data\<close>

text \<open>
  A JSON codec given by finite tables of values and their texts, and an environment in
  which no call fails, for evaluating the program on concrete inputs.
\<close>

definition lookup_text :: "('v option \<times> string) list \<Rightarrow> string \<Rightarrow> 'v option" where
  "lookup_text tbl s = (case map_of (map (\<lambda>(v, x). (x, v)) tbl) s of None \<Rightarrow> None | Some v \<Rightarrow> v)"

definition json_tables ::
  "(string list option \<times> string) list \<Rightarrow> (Note list option \<times> string) list \<Rightarrow>
   (RunResult list option \<times> string) list \<Rightarrow> (Tanda \<times> string) list \<Rightarrow> json" where
  "json_tables S N R T =
     \<lparr>marshal_strs = map_of S, unmarshal_strs = lookup_text S,
      marshal_notes = map_of N, unmarshal_notes = lookup_text N,
      marshal_runs = map_of R, unmarshal_runs = lookup_text R,
      marshal_tanda = map_of T, unmarshal_tanda = map_of (map (\<lambda>(v, x). (x, v)) T)\<rparr>"

definition path_Base :: "string \<Rightarrow> string" where
  "path_Base p = rev (takeWhile (\<lambda>c. c \<noteq> CHR ''/'') (rev p))"

definition path_Dir :: "string \<Rightarrow> string" where
  "path_Dir p = rev (drop 1 (dropWhile (\<lambda>c. c \<noteq> CHR ''/'') (rev p)))"

definition env_ok :: "json \<Rightarrow> env" where
  "env_ok J =
     \<lparr>codec = J, faults = (\<lambda>f. False), now = 1000,
      TempNames = (\<lambda>d pattern. [d @ ''/issues-1.jsonl.tmp'', d @ ''/issues-2.jsonl.tmp'']),
      Dir = path_Dir, Base = path_Base, Join = (\<lambda>d n. d @ ''/'' @ n),
      Getpid = 4242, Itoa = (\<lambda>n. ''4242''), LockJSON = ''{}'',
      ParseDuration = (\<lambda>x. if x = ''5s'' then Some 5000000000 else None),
      DurationString = (\<lambda>n. ''5s''), IsDir = (\<lambda>p. False),
      WatcherFails = False, TraceWatcherFails = False, Cause = (\<lambda>e. ''cause'')\<rparr>"

definition run_pass :: RunResult where
  "run_pass = \<lparr>Timestamp = ''2025-01-01T10:00:00Z'', Result = ''pass'', Duration = ''1s'', Trace = []\<rparr>"

definition run_fail :: RunResult where
  "run_fail = \<lparr>Timestamp = ''2025-01-02T10:00:00Z'', Result = ''fail'', Duration = ''2s'', Trace = []\<rparr>"

definition tanda_login :: Tanda where
  "tanda_login =
     \<lparr>ID = ''td-1'', Title = ''Login'', Status = ''active'', File = ''tests/login.spec.ts'',
      Covers = Some [''auth''], DependsOn = Some [], Notes = Some [],
      RunHistory = Some [run_pass, run_fail, run_pass],
      CreatedAt = ''2025-01-01T00:00:00Z'', UpdatedAt = ''2025-01-03T00:00:00Z''\<rparr>"

definition tanda_login_v2 :: Tanda where
  "tanda_login_v2 =
     \<lparr>ID = ''td-1'', Title = ''Login v2'', Status = ''flaky'', File = [],
      Covers = None, DependsOn = None, Notes = None, RunHistory = Some [run_fail],
      CreatedAt = ''2025-02-02T00:00:00Z'', UpdatedAt = ''2025-02-03T00:00:00Z''\<rparr>"

definition tanda_checkout :: Tanda where
  "tanda_checkout =
     \<lparr>ID = ''td-2'', Title = ''Checkout'', Status = ''active'', File = [],
      Covers = Some [], DependsOn = Some [''td-1''], Notes = Some [],
      RunHistory = Some [],
      CreatedAt = ''2025-01-05T00:00:00Z'', UpdatedAt = ''2025-01-06T00:00:00Z''\<rparr>"

definition json_example :: json where
  "json_example =
     json_tables
       [(None, ''null''), (Some [], ''[]''), (Some [''auth''], ''[\"auth\"]''),
        (Some [''td-1''], ''[\"td-1\"]'')]
       [(None, ''null''), (Some [], ''[]'')]
       [(None, ''null''), (Some [], ''[]''), (Some [run_fail], ''[F]''),
        (Some [run_pass, run_fail, run_pass], ''[P,F,P]'')]
       [(tanda_login, ''{\"id\":\"td-1\",\"title\":\"Login\"}''),
        (tanda_checkout, ''{\"id\":\"td-2\",\"title\":\"Checkout\"}''),
        (tanda_login_v2, ''{\"id\":\"td-1\",\"title\":\"Login v2\"}'')]"

definition daemon_example :: Daemon where
  "daemon_example =
     \<lparr>dir = ''.tandas'', interval = 5000000000, syncer = New ''.tandas/issues.jsonl'',
      watcher = Some (watch_New ''.tandas/issues.jsonl''), traceWatcher = False,
      done_closed = False\<rparr>"

definition world_running :: world where
  "world_running =
     \<lparr>files = [''.tandas/td.sock'' \<mapsto> [], ''.tandas/daemon.pid'' \<mapsto> ''4242'',
               ''.tandas/daemon.lock'' \<mapsto> ''{}'', ''.tandas/db.sqlite'' \<mapsto> []],
      table = []\<rparr>"

definition world_v2 :: world where
  "world_v2 =
     \<lparr>files = [''.tandas/issues.jsonl'' \<mapsto>
                 ''{\"id\":\"td-1\",\"title\":\"Login v2\"}'' @ [CHR 0x0A]],
      table = []\<rparr>"

definition collections_nonnil :: "Tanda \<Rightarrow> bool" where
  "collections_nonnil t =
     (Covers t \<noteq> None \<and> DependsOn t \<noteq> None \<and> Notes t \<noteq> None \<and> RunHistory t \<noteq> None)"

text \<open>
  What holds of the process at every moment: before a signal is received nothing of
  \<open>Shutdown\<close> has run; afterwards the statements run so far and those left make up
  \<open>Shutdown\<close>, and a channel is closed only by a statement that has run.
\<close>

definition shutdown_inv :: "env \<Rightarrow> Daemon \<Rightarrow> process \<Rightarrow> bool" where
  "shutdown_inv E d p =
     (Shutdown E (proc_daemon p) = Shutdown E d
      \<and> proc_status p \<noteq> Panicked
      \<and> (\<forall>c. proc_status p = Exited c \<longrightarrow> c = 0)
      \<and> (if sig_waiting p
          then proc_status p = Running \<and> todo p = [] \<and> performed p = []
               \<and> \<not> done_closed (proc_daemon p) \<and> \<not> watcher_done_closed p
               \<and> \<not> trace_done_closed p
          else performed p @ todo p = Shutdown E d
               \<and> (done_closed (proc_daemon p) \<longrightarrow> CloseDone \<in> set (performed p))
               \<and> (watcher_done_closed p \<longrightarrow> StopWatcher \<in> set (performed p))
               \<and> (trace_done_closed p \<longrightarrow> StopTraceWatcher \<in> set (performed p))
               \<and> (proc_status p = Running \<longrightarrow> (\<forall>c. Exit c \<notin> set (performed p)))))"

text \<open>
  A signal, then the steps of \<open>Shutdown\<close> up to and with the closing of the listener, then
  the error of \<open>Accept\<close> on the goroutine of \<open>main\<close>.
\<close>

definition until_listener_closed :: "env \<Rightarrow> Daemon \<Rightarrow> stimulus list" where
  "until_listener_closed E d =
     Signal # map (\<lambda>a. Step) (takeWhile (\<lambda>a. a \<noteq> CloseListener) (Shutdown E d))
     @ [Step, AcceptFails]"

definition stimuli_example :: "stimulus list" where
  "stimuli_example =
     [Step, AcceptFails, Signal, Signal, Step, Step, Step, Step, Signal, Step, Step, Step,
      Step, Step]"

text \<open>
  The two tests of the loop of \<open>Start\<close> that an event passes to restart the timer.
\<close>

definition qualifies :: "env \<Rightarrow> Watcher \<Rightarrow> Event \<Rightarrow> bool" where
  "qualifies E w event =
     (Base E (Name event) = Base E (filePath w)
      \<and> Op event AND (fsnotify_Write OR fsnotify_Create) \<noteq> 0)"

fun gaps_below :: "nat \<Rightarrow> nat list \<Rightarrow> bool" where
  "gaps_below d [] = True"
| "gaps_below d [t] = True"
| "gaps_below d (t # t' # ts) = (t \<le> t' \<and> t' < t + d \<and> gaps_below d (t' # ts))"

definition write_event :: Event where
  "write_event = \<lparr>Name = ''.tandas/issues.jsonl'', Op = fsnotify_Write\<rparr>"

text \<open>The text of a log with one line for each record of a list.\<close>

definition jsonl_of :: "json \<Rightarrow> Tanda list \<Rightarrow> string" where
  "jsonl_of J ts = concat (map (\<lambda>t. text_of (marshal_tanda J t) @ [CHR 0x0A]) ts)"

definition world_two :: world where
  "world_two =
     \<lparr>files = [''.tandas/issues.jsonl'' \<mapsto> ''old'' @ [CHR 0x0A]],
      table = [new_row json_example tanda_login, new_row json_example tanda_checkout]\<rparr>"

definition env_rename_fails :: env where
  "env_rename_fails = (env_ok json_example)\<lparr>faults := (\<lambda>f. f = FRename)\<rparr>"

definition jsonl_two :: string where
  "jsonl_two = ''{\"id\":\"td-2\",\"title\":\"Checkout\"}'' @ [CHR 0x0A]
               @ ''{\"id\":\"td-1\",\"title\":\"Login\"}'' @ [CHR 0x0A]"



definition malformed :: "json \<Rightarrow> string \<Rightarrow> bool" where
  "malformed J line = (line \<noteq> [] \<and> unmarshal_tanda J line = None)"

definition records_of :: "json \<Rightarrow> string list \<Rightarrow> Tanda list" where
  "records_of J lines =
     List.map_filter
       (\<lambda>line. if line = [] then None else map_option init_slices (unmarshal_tanda J line))
       lines"

definition warnings_of :: "json \<Rightarrow> nat \<Rightarrow> string list \<Rightarrow> warning list" where
  "warnings_of J n lines =
     map (\<lambda>p. ParseWarning (fst p)) (filter (\<lambda>p. malformed J (snd p)) (enumerate (Suc n) lines))"

text \<open>
  What \<open>encoding/json\<close> does for a record of valid UTF-8 strings: the line it marshals
  a record to is a JSON object on one line (not empty, with no line feed, ending in a
  brace), and unmarshals to the same record; a collection marshals to a text that
  unmarshals to the same collection.
\<close>

definition line_ok :: "json \<Rightarrow> Tanda \<Rightarrow> bool" where
  "line_ok J t =
     (case marshal_tanda J t of
        None \<Rightarrow> False
      | Some line \<Rightarrow>
          line \<noteq> [] \<and> CHR 0x0A \<notin> set line \<and> last line \<noteq> CHR 0x0D
          \<and> unmarshal_tanda J line = Some t)"

definition columns_ok :: "json \<Rightarrow> Tanda \<Rightarrow> bool" where
  "columns_ok J t =
     ((case marshal_strs J (Covers t) of
         None \<Rightarrow> False | Some x \<Rightarrow> unmarshal_strs J x = Covers t)
      \<and> (case marshal_strs J (DependsOn t) of
            None \<Rightarrow> False | Some x \<Rightarrow> unmarshal_strs J x = DependsOn t)
      \<and> (case marshal_notes J (Notes t) of
            None \<Rightarrow> False | Some x \<Rightarrow> unmarshal_notes J x = Notes t)
      \<and> (case marshal_runs J (RunHistory t) of
            None \<Rightarrow> False | Some x \<Rightarrow> unmarshal_runs J x = RunHistory t))"

definition json_roundtrip :: "json \<Rightarrow> Tanda \<Rightarrow> bool" where
  "json_roundtrip J t = (line_ok J t \<and> columns_ok J t)"

text \<open>Logs for the examples: a mixed one, one with an id twice, one with a long line.\<close>

definition log_path :: string where
  "log_path = ''.tandas/issues.jsonl''"





definition long_line :: string where
  "long_line = ''{\"id\":\"td-9\",\"title\":\"'' @ replicate maxTokenSize (CHR ''x'') @ ''\"}''"


definition tanda_long :: Tanda where
  "tanda_long =
     \<lparr>ID = ''td-9'', Title = replicate maxTokenSize (CHR ''x''), Status = ''active'', File = [],
      Covers = Some [], DependsOn = Some [], Notes = Some [], RunHistory = Some [],
      CreatedAt = ''2025-03-01T00:00:00Z'', UpdatedAt = ''2025-03-02T00:00:00Z''\<rparr>"

definition json_long :: json where
  "json_long =
     json_tables [(Some [], ''[]'')] [(Some [], ''[]'')] [(Some [], ''[]'')]
       [(tanda_long, long_line)]"

definition world_long :: world where
  "world_long = \<lparr>files = Map.empty, table = [new_row json_long tanda_long]\<rparr>"

text \<open>
  A record with a title that is not valid UTF-8, and what \<open>encoding/json\<close> makes of it:
  \<open>json.Marshal\<close> writes the escape of U+FFFD in place of the byte, and \<open>json.Unmarshal\<close>
  reads the escape as the three bytes of U+FFFD.
\<close>

definition tanda_raw :: Tanda where
  "tanda_raw =
     \<lparr>ID = ''td-7'', Title = ''caf'' @ [CHR 0xE9], Status = ''active'', File = [],
      Covers = Some [], DependsOn = Some [], Notes = Some [], RunHistory = Some [],
      CreatedAt = ''2025-04-01T00:00:00Z'', UpdatedAt = ''2025-04-02T00:00:00Z''\<rparr>"

definition tanda_replaced :: Tanda where
  "tanda_replaced = tanda_raw\<lparr>Title := ''caf'' @ [CHR 0xEF, CHR 0xBF, CHR 0xBD]\<rparr>"

definition line_replaced :: string where
  "line_replaced = ''{\"id\":\"td-7\",\"title\":\"caf'' @ [CHR 0x5C] @ ''ufffd\"}''"

definition json_lossy :: json where
  "json_lossy =
     (json_tables [(Some [], ''[]'')] [(Some [], ''[]'')] [(Some [], ''[]'')] [])
       \<lparr>marshal_tanda := [tanda_raw \<mapsto> line_replaced],
        unmarshal_tanda := [line_replaced \<mapsto> tanda_replaced]\<rparr>"

definition world_raw :: world where
  "world_raw = \<lparr>files = Map.empty, table = [new_row json_lossy tanda_raw]\<rparr>"

section \<open>Properties of the store\<close>

lemma count_failures_filter:
  "count_failures w n = n + length (filter (\<lambda>run. Result run = ''fail'') w)"
  by (induction w arbitrary: n) auto

lemma calculateFlakiness_window:
  "calculateFlakiness h =
     (if slice h = [] then 0
      else of_nat (length (filter (\<lambda>run. Result run = ''fail'')
                     (drop (length (slice h) - min 10 (length (slice h))) (slice h))))
           / of_nat (min 10 (length (slice h))))"
  by (auto simp: calculateFlakiness_def count_failures_filter Let_def min_def)

lemma find_insert_on_conflict:
  "find (\<lambda>r. col_id r = col_id e) (insert_on_conflict e tbl) =
     Some (case find (\<lambda>r. col_id r = col_id e) tbl of
             None \<Rightarrow> e | Some old \<Rightarrow> on_conflict_update old e)"
  by (induction tbl) (auto simp: on_conflict_update_def)

lemma find_insert_on_conflict_other:
  "i \<noteq> col_id e \<Longrightarrow>
   find (\<lambda>r. col_id r = i) (insert_on_conflict e tbl) = find (\<lambda>r. col_id r = i) tbl"
  by (induction tbl) (auto simp: on_conflict_update_def)

lemma map_col_id_insert_on_conflict:
  "map col_id (insert_on_conflict e tbl) =
     (if col_id e \<in> set (map col_id tbl) then map col_id tbl else map col_id tbl @ [col_id e])"
  by (induction tbl) (auto simp: on_conflict_update_def)

lemma col_id_new_row [simp]: "col_id (new_row J t) = ID t"
  by (simp add: new_row_def Let_def)

lemma col_flakiness_score_new_row:
  "col_flakiness_score (new_row J t) = calculateFlakiness (RunHistory t)"
  by (simp add: new_row_def Let_def)

lemma find_Some_col_id: "find (\<lambda>r. col_id r = i) tbl = Some old \<Longrightarrow> col_id old = i"
  by (induction tbl) (auto split: if_splits)

section \<open>The flakiness score\<close>

text \<open>
  Claim C4. The score that \<open>UpsertTanda\<close> writes into the column \<open>flakiness_score\<close> is
  \<open>calculateFlakiness\<close> of the record's run history, and that is the number of entries
  with result \<open>fail\<close> among the last \<open>min 10 (length history)\<close> entries, divided by
  \<open>min 10 (length history)\<close>, and 0 for an empty (or nil) history. So 10 entries are
  scored over all 10, 11 entries over the last 10 (the first is dropped), 3 entries with
  one failure give \<open>1/3\<close>.
\<close>

theorem flakiness_score_window:
  "(case UpsertTanda (\<lambda>f. False) J t tbl of
      Inl e \<Rightarrow> False
    | Inr tbl' \<Rightarrow>
        map_option col_flakiness_score (find (\<lambda>r. col_id r = ID t) tbl') =
          Some (calculateFlakiness (RunHistory t)))
   \<and> calculateFlakiness h =
       (if slice h = [] then 0
        else of_nat (length (filter (\<lambda>run. Result run = ''fail'')
                       (drop (length (slice h) - min 10 (length (slice h))) (slice h))))
             / of_nat (min 10 (length (slice h))))
   \<and> (length (slice h) = 10 \<longrightarrow>
        calculateFlakiness h =
          of_nat (length (filter (\<lambda>run. Result run = ''fail'') (slice h))) / 10)
   \<and> (length (slice h) = 11 \<longrightarrow>
        calculateFlakiness h =
          of_nat (length (filter (\<lambda>run. Result run = ''fail'') (tl (slice h)))) / 10)
   \<and> (length (slice h) = 3 \<and> length (filter (\<lambda>run. Result run = ''fail'') (slice h)) = 1 \<longrightarrow>
        calculateFlakiness h = 1 / 3)
   \<and> (slice h = [] \<longrightarrow> calculateFlakiness h = 0)"
proof -
  have upsert: "(case UpsertTanda (\<lambda>f. False) J t tbl of
      Inl e \<Rightarrow> False
    | Inr tbl' \<Rightarrow>
        map_option col_flakiness_score (find (\<lambda>r. col_id r = ID t) tbl') =
          Some (calculateFlakiness (RunHistory t)))"
    using find_insert_on_conflict [of "new_row J t" tbl]
    by (auto simp: UpsertTanda_def col_flakiness_score_new_row on_conflict_update_def
             split: option.splits)
  have ten: "calculateFlakiness h =
          of_nat (length (filter (\<lambda>run. Result run = ''fail'') (slice h))) / 10"
    if "length (slice h) = 10"
    using that by (auto simp: calculateFlakiness_window)
  have eleven: "calculateFlakiness h =
          of_nat (length (filter (\<lambda>run. Result run = ''fail'') (tl (slice h)))) / 10"
    if "length (slice h) = 11"
    using that by (auto simp: calculateFlakiness_window drop_Suc)
  have three: "calculateFlakiness h = 1 / 3"
    if "length (slice h) = 3" "length (filter (\<lambda>run. Result run = ''fail'') (slice h)) = 1"
    using that by (auto simp: calculateFlakiness_window)
  show ?thesis
    using upsert ten eleven three calculateFlakiness_window [of h] by simp
qed

theorem flakiness_score_window_witness:
  "length (slice (RunHistory tanda_login)) = 3
   \<and> length (filter (\<lambda>run. Result run = ''fail'') (slice (RunHistory tanda_login))) = 1
   \<and> calculateFlakiness (RunHistory tanda_login) = 1 / 3
   \<and> slice (RunHistory tanda_checkout) = []
   \<and> calculateFlakiness (RunHistory tanda_checkout) = 0
   \<and> length (slice (Some (replicate 10 run_fail))) = 10
   \<and> calculateFlakiness (Some (replicate 10 run_fail)) = 1
   \<and> length (slice (Some (run_fail # replicate 10 run_pass))) = 11
   \<and> calculateFlakiness (Some (run_fail # replicate 10 run_pass)) = 0"
  using flakiness_score_window [where J = json_example and t = tanda_login and tbl = "[]"
          and h = "RunHistory tanda_login"]
        flakiness_score_window [where J = json_example and t = tanda_login and tbl = "[]"
          and h = "RunHistory tanda_checkout"]
        flakiness_score_window [where J = json_example and t = tanda_login and tbl = "[]"
          and h = "Some (replicate 10 run_fail)"]
        flakiness_score_window [where J = json_example and t = tanda_login and tbl = "[]"
          and h = "Some (run_fail # replicate 10 run_pass)"]
  by (simp add: slice_def tanda_login_def tanda_checkout_def run_fail_def run_pass_def)

section \<open>Upsert of an existing id\<close>

text \<open>
  Claim C8, as the program has it. When the id of \<open>r\<close> is in the table and the statement
  executes, \<open>UpsertTanda\<close> leaves one row with that id, in its old place; the row holds the
  title, status, file, the four collections (as JSON text) and \<open>updated_at\<close> of \<open>r\<close>, and
  the three derived columns computed from the run history of \<open>r\<close>; its \<open>created_at\<close> is the
  one stored before, not that of \<open>r\<close>. No other row changes.
\<close>

theorem upsert_existing_keeps_created_at:
  assumes "find (\<lambda>row. col_id row = ID r) tbl = Some old"
    and "\<not> fails (FUpsert (ID r))"
  shows "(case UpsertTanda fails J r tbl of
           Inl e \<Rightarrow> False
         | Inr tbl' \<Rightarrow>
             (case find (\<lambda>row. col_id row = ID r) tbl' of
                None \<Rightarrow> False
              | Some row \<Rightarrow>
                  col_id row = ID r \<and> col_title row = Title r \<and> col_status row = Status r
                  \<and> col_file row = Some (File r)
                  \<and> col_covers row = text_of (marshal_strs J (Covers r))
                  \<and> col_depends_on row = text_of (marshal_strs J (DependsOn r))
                  \<and> col_notes row = text_of (marshal_notes J (Notes r))
                  \<and> col_run_history row = text_of (marshal_runs J (RunHistory r))
                  \<and> col_flakiness_score row = calculateFlakiness (RunHistory r)
                  \<and> col_last_run_at row =
                      (if slice (RunHistory r) = [] then []
                       else Timestamp (last (slice (RunHistory r))))
                  \<and> col_last_run_result row =
                      (if slice (RunHistory r) = [] then []
                       else Result (last (slice (RunHistory r))))
                  \<and> col_updated_at row = UpdatedAt r
                  \<and> col_created_at row = col_created_at old)
             \<and> (\<forall>i. i \<noteq> ID r \<longrightarrow>
                   find (\<lambda>row. col_id row = i) tbl' = find (\<lambda>row. col_id row = i) tbl)
             \<and> map col_id tbl' = map col_id tbl)"
proof -
  have id_old: "col_id old = ID r"
    using assms(1) by (rule find_Some_col_id)
  have mem: "ID r \<in> set (map col_id tbl)"
    using assms(1) id_old by (metis find_Some_iff image_eqI nth_mem set_map)
  have stored: "find (\<lambda>row. col_id row = ID r) (insert_on_conflict (new_row J r) tbl) =
      Some (on_conflict_update old (new_row J r))"
    using assms(1) find_insert_on_conflict [of "new_row J r" tbl] by simp
  have others: "\<forall>i. i \<noteq> ID r \<longrightarrow>
      find (\<lambda>row. col_id row = i) (insert_on_conflict (new_row J r) tbl) =
      find (\<lambda>row. col_id row = i) tbl"
    using find_insert_on_conflict_other [of _ "new_row J r" tbl] by simp
  have ids: "map col_id (insert_on_conflict (new_row J r) tbl) = map col_id tbl"
    using mem map_col_id_insert_on_conflict [of "new_row J r" tbl] by simp
  show ?thesis
    using assms(2) stored others ids id_old
    by (simp add: UpsertTanda_def on_conflict_update_def new_row_def Let_def)
qed

theorem upsert_existing_keeps_created_at_witness:
  "find (\<lambda>row. col_id row = ID tanda_login_v2) [new_row json_example tanda_login] =
     Some (new_row json_example tanda_login)
   \<and> (case UpsertTanda (\<lambda>f. False) json_example tanda_login_v2
             [new_row json_example tanda_login] of
        Inl e \<Rightarrow> False
      | Inr tbl' \<Rightarrow>
          map col_title tbl' = [''Login v2''] \<and> map col_status tbl' = [''flaky'']
          \<and> map col_flakiness_score tbl' = [1]
          \<and> map col_last_run_result tbl' = [''fail'']
          \<and> map col_updated_at tbl' = [''2025-02-03T00:00:00Z'']
          \<and> map col_created_at tbl' = [''2025-01-01T00:00:00Z''])"
  using upsert_existing_keeps_created_at [where r = tanda_login_v2
          and tbl = "[new_row json_example tanda_login]"
          and old = "new_row json_example tanda_login"
          and fails = "\<lambda>f. False" and J = json_example]
  by (simp add: UpsertTanda_def new_row_def on_conflict_update_def tanda_login_def
        tanda_login_v2_def run_fail_def run_pass_def Let_def calculateFlakiness_def slice_def
        json_example_def json_tables_def text_of_def)

text \<open>
  The claim as written asks for \<open>created_at\<close> of the stored row to be that of \<open>r\<close>. The
  statement's \<open>DO UPDATE SET\<close> list leaves \<open>created_at\<close> out: upserting a record with the id
  of a stored one and another \<open>created_at\<close> keeps the stored value.
\<close>

theorem upsert_created_at_counterexample:
  "ID tanda_login_v2 = ID tanda_login
   \<and> CreatedAt tanda_login_v2 = ''2025-02-02T00:00:00Z''
   \<and> (case UpsertTanda (\<lambda>f. False) json_example tanda_login_v2
             [new_row json_example tanda_login] of
        Inl e \<Rightarrow> False
      | Inr tbl' \<Rightarrow> map col_created_at tbl' = [''2025-01-01T00:00:00Z'']
                   \<and> map col_title tbl' = [''Login v2''])"
  by (simp add: UpsertTanda_def new_row_def on_conflict_update_def tanda_login_def
        tanda_login_v2_def Let_def)

section \<open>Collections are never nil\<close>

lemma maxTokenSize_gt: "n < 1000 \<Longrightarrow> \<not> maxTokenSize \<le> n"
  by (simp add: maxTokenSize_def)

lemma collections_nonnil_init_slices: "collections_nonnil (init_slices t)"
  by (simp add: collections_nonnil_def init_slices_def nonnil_def)

lemma collections_nonnil_scan_row: "collections_nonnil (scan_row J r)"
  by (simp add: collections_nonnil_def scan_row_def nonnil_def)

lemma import_loop_upserts_nonnil:
  "\<forall>t \<in> set (st_upserts st). collections_nonnil t \<Longrightarrow>
   \<forall>t \<in> set (st_upserts (import_loop E ls n st)). collections_nonnil t"
proof (induction ls arbitrary: n st)
  case Nil
  then show ?case by simp
next
  case (Cons line rest)
  show ?case
    using Cons.prems
    by (auto simp: collections_nonnil_init_slices Let_def
             intro!: Cons.IH split: option.splits sum.splits)
qed

text \<open>
  Claim C5. Every record that \<open>ImportFromJSONL\<close> hands to \<open>UpsertTanda\<close>, and every record
  that \<open>GetAllTandas\<close> returns, has its four collections \<open>Covers\<close>, \<open>DependsOn\<close>, \<open>Notes\<close> and
  \<open>RunHistory\<close> not nil, whatever the log, the table and the JSON codec are.
\<close>

theorem collections_never_nil:
  "(\<forall>t \<in> set (imp_upserts (ImportFromJSONL E s w)). collections_nonnil t)
   \<and> (\<forall>ts. GetAllTandas fails J tbl = Inr ts \<longrightarrow> (\<forall>t \<in> set ts. collections_nonnil t))"
proof -
  have imp: "\<forall>t \<in> set (imp_upserts (ImportFromJSONL E s w)). collections_nonnil t"
    using import_loop_upserts_nonnil
      [of "\<lparr>st_table = [], st_warnings = [], st_upserts = []\<rparr>" E]
    by (simp add: ImportFromJSONL_def ClearAll_def Let_def split: option.splits)
  have get: "\<forall>ts. GetAllTandas fails J tbl = Inr ts \<longrightarrow> (\<forall>t \<in> set ts. collections_nonnil t)"
    by (auto simp: GetAllTandas_def collections_nonnil_scan_row)
  show ?thesis using imp get by blast
qed

theorem collections_never_nil_witness:
  "Covers tanda_login_v2 = None
   \<and> imp_upserts (ImportFromJSONL (env_ok json_example) (New ''.tandas/issues.jsonl'') world_v2)
       = [tanda_login_v2\<lparr>Covers := Some [], DependsOn := Some [], Notes := Some []\<rparr>]
   \<and> collections_nonnil
       (tanda_login_v2\<lparr>Covers := Some [], DependsOn := Some [], Notes := Some []\<rparr>)
   \<and> col_covers (new_row json_example tanda_login_v2) = ''null''
   \<and> GetAllTandas (\<lambda>f. False) json_example [new_row json_example tanda_login_v2]
       = Inr [tanda_login_v2\<lparr>Covers := Some [], DependsOn := Some [], Notes := Some []\<rparr>]"
proof -
  have nil: "Covers tanda_login_v2 = None"
    by (simp add: tanda_login_v2_def)
  have ups: "imp_upserts (ImportFromJSONL (env_ok json_example) (New ''.tandas/issues.jsonl'')
                world_v2) = [init_slices tanda_login_v2]"
    by (simp add: ImportFromJSONL_def env_ok_def New_def world_v2_def ClearAll_def Let_def
          maxTokenSize_gt dropCR_def json_example_def json_tables_def UpsertTanda_def)
  have init: "init_slices tanda_login_v2 =
      tanda_login_v2\<lparr>Covers := Some [], DependsOn := Some [], Notes := Some []\<rparr>"
    by (simp add: init_slices_def nonnil_def tanda_login_v2_def)
  have col: "col_covers (new_row json_example tanda_login_v2) = ''null''"
    by (simp add: new_row_def Let_def json_example_def json_tables_def tanda_login_v2_def
          text_of_def)
  have scan: "scan_row json_example (new_row json_example tanda_login_v2) =
      tanda_login_v2\<lparr>Covers := Some [], DependsOn := Some [], Notes := Some []\<rparr>"
    by (simp add: scan_row_def new_row_def Let_def json_example_def json_tables_def
          tanda_login_v2_def text_of_def lookup_text_def nonnil_def)
  have get: "GetAllTandas (\<lambda>f. False) json_example [new_row json_example tanda_login_v2]
      = Inr [scan_row json_example (new_row json_example tanda_login_v2)]"
    by (simp add: GetAllTandas_def order_by_updated_at_desc_def)
  have "collections_nonnil (init_slices tanda_login_v2)"
    using collections_never_nil [where E = "env_ok json_example"
            and s = "New ''.tandas/issues.jsonl''" and w = world_v2
            and fails = "\<lambda>f. False" and J = json_example
            and tbl = "[new_row json_example tanda_login_v2]"]
    unfolding ups by simp
  then show ?thesis
    using nil ups init col scan get by simp
qed

section \<open>Request dispatch\<close>

text \<open>
  Claim C6. The response of \<open>handleRequest\<close> carries the id of the request, whatever the
  method. \<open>ping\<close> is answered with the result \<open>pong\<close> and an empty error; \<open>status\<close> with a
  result holding \<open>running = true\<close>, the process id and the interval of the daemon, as
  text. A method other than \<open>ping\<close>, \<open>sync\<close>, \<open>import\<close> and \<open>status\<close> is answered with the
  error \<open>unknown method: \<close> followed by the method, which is not empty, with nothing
  changed; once that response is encoded, \<open>handleConnection\<close> goes on with the requests
  that follow on the connection.
\<close>

theorem rpc_dispatch:
  "RespID (fst (handleRequest E d w req)) = ReqID req
   \<and> (Method req = ''ping'' \<longrightarrow>
        handleRequest E d w req =
          (\<lparr>RespResult = Some (Text ''pong''), RespError = [], RespID = ReqID req\<rparr>, d, w))
   \<and> (Method req = ''status'' \<longrightarrow>
        handleRequest E d w req =
          (\<lparr>RespResult = Some (StatusMap True (Getpid E) (DurationString E (interval d))),
            RespError = [], RespID = ReqID req\<rparr>, d, w))
   \<and> (Method req \<notin> {''ping'', ''sync'', ''import'', ''status''} \<longrightarrow>
        handleRequest E d w req =
          (\<lparr>RespResult = None, RespError = ''unknown method: '' @ Method req,
            RespID = ReqID req\<rparr>, d, w)
        \<and> RespError (fst (handleRequest E d w req)) \<noteq> []
        \<and> (\<not> faults E (FEncode (ReqID req)) \<longrightarrow>
             handleConnection E (Request req # rest) d w =
               (fst (handleRequest E d w req) # fst (handleConnection E rest d w),
                snd (handleConnection E rest d w))))"
  by (auto simp: handleRequest_def Let_def split: option.splits prod.splits)

theorem rpc_dispatch_witness:
  "handleConnection (env_ok json_example)
     [Request \<lparr>Method = ''bogus'', Params = [], ReqID = 1\<rparr>,
      Request \<lparr>Method = ''ping'', Params = [], ReqID = 7\<rparr>,
      Request \<lparr>Method = ''status'', Params = [], ReqID = 8\<rparr>] daemon_example world_running
   = ([\<lparr>RespResult = None, RespError = ''unknown method: bogus'', RespID = 1\<rparr>,
       \<lparr>RespResult = Some (Text ''pong''), RespError = [], RespID = 7\<rparr>,
       \<lparr>RespResult = Some (StatusMap True 4242 ''5s''), RespError = [], RespID = 8\<rparr>],
      daemon_example, world_running)"
  using rpc_dispatch [where E = "env_ok json_example" and d = daemon_example
          and w = world_running and req = "\<lparr>Method = ''bogus'', Params = [], ReqID = 1\<rparr>"
          and rest = "[Request \<lparr>Method = ''ping'', Params = [], ReqID = 7\<rparr>,
      Request \<lparr>Method = ''status'', Params = [], ReqID = 8\<rparr>]"]
  by (simp add: handleRequest_def env_ok_def daemon_example_def)

section \<open>Singleton refusal\<close>

text \<open>
  Claim C7, as the program has it. When the socket path exists, \<open>StartDaemon\<close> returns an
  error and leaves every file and the table as they were. \<open>StartDaemon\<close> parses the
  interval before it looks for the socket: the error is the already-running error, which
  names the socket path, when the interval text parses as a duration, and the
  invalid-interval error when it does not.
\<close>

theorem singleton_refusal:
  assumes "files w (Join E d socketName) \<noteq> None"
  shows "snd (StartDaemon E d intervalStr w) = w
         \<and> fst (StartDaemon E d intervalStr w) =
             (if ParseDuration E intervalStr = None then Inl ErrInvalidInterval
              else Inl (ErrAlreadyRunning (Join E d socketName)))"
  using assms by (simp add: StartDaemon_def Let_def split: option.splits)

theorem singleton_refusal_witness:
  "files world_running (Join (env_ok json_example) ''.tandas'' socketName) \<noteq> None
   \<and> ParseDuration (env_ok json_example) ''5s'' \<noteq> None
   \<and> StartDaemon (env_ok json_example) ''.tandas'' ''5s'' world_running
       = (Inl (ErrAlreadyRunning ''.tandas/td.sock''), world_running)
   \<and> Error_text (env_ok json_example) (ErrAlreadyRunning ''.tandas/td.sock'')
       = ''daemon already running (socket exists: .tandas/td.sock)''"
  using singleton_refusal [where E = "env_ok json_example" and d = "''.tandas''"
          and intervalStr = "''5s''" and w = world_running]
  by (simp add: StartDaemon_def env_ok_def world_running_def socketName_def Let_def)

text \<open>
  The claim as written promises the already-running error at every start against an
  existing socket. With an interval text that does not parse, the start fails earlier,
  with the invalid-interval error.
\<close>

theorem singleton_refusal_counterexample:
  "files world_running (Join (env_ok json_example) ''.tandas'' socketName) \<noteq> None
   \<and> StartDaemon (env_ok json_example) ''.tandas'' ''soon'' world_running
       = (Inl ErrInvalidInterval, world_running)
   \<and> Error_text (env_ok json_example) ErrInvalidInterval = ''invalid interval: cause''"
  by (simp add: StartDaemon_def env_ok_def world_running_def socketName_def)

section \<open>Shutdown\<close>

lemma Shutdown_done_closed [simp]: "Shutdown E (d\<lparr>done_closed := b\<rparr>) = Shutdown E d"
  by (simp add: Shutdown_def)

lemma Shutdown_counts:
  "count_list (Shutdown E d) CloseDone = 1"
  "count_list (Shutdown E d) StopWatcher \<le> 1"
  "count_list (Shutdown E d) StopTraceWatcher \<le> 1"
  by (simp_all add: Shutdown_def)

lemma Shutdown_Exit: "Exit c \<in> set (Shutdown E d) \<Longrightarrow> c = 0"
  by (simp add: Shutdown_def split: if_splits)

lemma Shutdown_last:
  "\<exists>B. Shutdown E d = B @ [Exit 0] \<and> (\<forall>c. Exit c \<notin> set B)"
  by (simp add: Shutdown_def)

text \<open>
  \<open>Shutdown\<close> is not written to be called twice: closing \<open>done\<close> again panics.
\<close>

lemma second_close_panics:
  "done_closed (proc_daemon p) \<Longrightarrow> proc_status (perform E CloseDone p) = Panicked"
  by simp

lemma once_not_before:
  assumes "xs @ a # ys = zs" "count_list zs a \<le> 1"
  shows "a \<notin> set xs"
proof
  assume "a \<in> set xs"
  then have "count_list xs a \<ge> 1"
    using count_list_0_iff [of xs a] by auto
  then show False using assms by auto
qed

lemma Exit_is_last:
  assumes "xs @ Exit c # ys = Shutdown E d"
  shows "ys = [] \<and> c = 0"
proof -
  obtain B where B: "Shutdown E d = B @ [Exit 0]" "\<forall>c. Exit c \<notin> set B"
    using Shutdown_last by blast
  have c: "c = 0" using assms Shutdown_Exit [of c E d]
    by (metis in_set_conv_decomp)
  show ?thesis
  proof (cases ys rule: rev_cases)
    case Nil
    then show ?thesis using c by simp
  next
    case (snoc ys' y)
    then have "xs @ Exit c # ys' = B" using assms B(1) by simp
    then have "Exit c \<in> set B" by auto
    then show ?thesis using B(2) by blast
  qed
qed

lemma shutdown_inv_started: "shutdown_inv E d (started d w)"
  by (simp add: shutdown_inv_def started_def)

lemma shutdown_inv_react:
  assumes "shutdown_inv E d p"
  shows "shutdown_inv E d (react E p x)"
proof (cases x)
  case Signal
  then show ?thesis
    using assms by (auto simp: shutdown_inv_def split: if_splits)
next
  case AcceptFails
  then show ?thesis
    using assms by (auto simp: shutdown_inv_def split: if_splits)
next
  case Step
  show ?thesis
  proof (cases "proc_status p = Running \<and> todo p \<noteq> []")
    case False
    then show ?thesis using assms Step by (auto simp: neq_Nil_conv split: list.splits)
  next
    case True
    then obtain a rest where todo: "todo p = a # rest" by (auto simp: neq_Nil_conv)
    have run: "proc_status p = Running" using True by simp
    have nw: "\<not> sig_waiting p"
      using assms run todo by (auto simp: shutdown_inv_def)
    have split: "performed p @ a # rest = Shutdown E d"
      using assms run todo nw by (auto simp: shutdown_inv_def)
    have same: "Shutdown E (proc_daemon p) = Shutdown E d"
      using assms by (simp add: shutdown_inv_def)
    have closed:
      "done_closed (proc_daemon p) \<longrightarrow> CloseDone \<in> set (performed p)"
      "watcher_done_closed p \<longrightarrow> StopWatcher \<in> set (performed p)"
      "trace_done_closed p \<longrightarrow> StopTraceWatcher \<in> set (performed p)"
      "\<forall>c. Exit c \<notin> set (performed p)"
      using assms run nw by (auto simp: shutdown_inv_def)
    show ?thesis
    proof (cases a)
      case CloseDone
      have "CloseDone \<notin> set (performed p)"
        using once_not_before [OF split [unfolded CloseDone]] Shutdown_counts(1) [of E d] by simp
      then show ?thesis
        using Step todo run nw split same closed CloseDone
        by (simp add: shutdown_inv_def)
    next
      case StopWatcher
      have "StopWatcher \<notin> set (performed p)"
        using once_not_before [OF split [unfolded StopWatcher]] Shutdown_counts(2) [of E d] by simp
      then show ?thesis
        using Step todo run nw split same closed StopWatcher
        by (simp add: shutdown_inv_def)
    next
      case StopTraceWatcher
      have "StopTraceWatcher \<notin> set (performed p)"
        using once_not_before [OF split [unfolded StopTraceWatcher]] Shutdown_counts(3) [of E d] by simp
      then show ?thesis
        using Step todo run nw split same closed StopTraceWatcher
        by (simp add: shutdown_inv_def)
    next
      case CloseListener
      then show ?thesis
        using Step todo run nw split same closed
        by (simp add: shutdown_inv_def)
    next
      case CloseStore
      then show ?thesis
        using Step todo run nw split same closed
        by (simp add: shutdown_inv_def)
    next
      case (RemoveFile path)
      then show ?thesis
        using Step todo run nw split same closed
        by (simp add: shutdown_inv_def)
    next
      case (Exit c)
      have last: "rest = [] \<and> c = 0"
        using Exit_is_last split Exit by blast
      have "set (performed p) \<subseteq> set (Shutdown E d)"
        unfolding split [symmetric] by auto
      then show ?thesis
        using Step todo run nw split same closed Exit last
        by (auto simp: shutdown_inv_def)
    qed
  qed
qed

lemma shutdown_inv_run: "shutdown_inv E d p \<Longrightarrow> shutdown_inv E d (run E xs p)"
  unfolding run_def
  by (induction xs arbitrary: p) (auto intro: shutdown_inv_react)

lemma shutdown_inv_prefix:
  assumes "shutdown_inv E d p"
  shows "performed p = take (length (performed p)) (Shutdown E d)"
proof (cases "sig_waiting p")
  case False
  then have "performed p @ todo p = Shutdown E d"
    using assms by (auto simp: shutdown_inv_def)
  then show ?thesis by (metis append_eq_conv_conj)
next
  case True
  then show ?thesis
    using assms by (auto simp: shutdown_inv_def)
qed

lemma run_not_Running: "proc_status p \<noteq> Running \<Longrightarrow> run E xs p = p"
  unfolding run_def
proof (induction xs arbitrary: p)
  case Nil
  then show ?case by simp
next
  case (Cons x xs)
  have "react E p x = p" using Cons.prems by (cases x) auto
  then show ?case using Cons by simp
qed

lemma run_Cons: "run E (x # xs) p = run E xs (react E p x)"
  by (simp add: run_def)

lemma run_append: "run E (xs @ ys) p = run E ys (run E xs p)"
  by (simp add: run_def)

lemma react_before_signal: "x \<noteq> Signal \<Longrightarrow> react E (started d w) x = started d w"
  by (cases x) (simp_all add: started_def)

lemma run_before_signal:
  "\<forall>x \<in> set xs. x \<noteq> Signal \<Longrightarrow> run E xs (started d w) = started d w"
  by (induction xs) (simp_all add: run_Cons react_before_signal, simp add: run_def)

lemma shutdown_runs_to_exit:
  assumes "shutdown_inv E d p" "proc_status p = Running" "\<not> sig_waiting p"
    and "length (todo p) \<le> length (filter (\<lambda>x. x = Step) xs)"
  shows "proc_status (run E xs p) = Exited 0"
  using assms
proof (induction xs arbitrary: p)
  case Nil
  then have "todo p = []" by simp
  then have "performed p = Shutdown E d"
    using Nil.prems by (auto simp: shutdown_inv_def)
  moreover have "\<forall>c. Exit c \<notin> set (performed p)"
    using Nil.prems by (auto simp: shutdown_inv_def)
  ultimately show ?case
    using Shutdown_last [of E d] by auto
next
  case (Cons x xs)
  have inv': "shutdown_inv E d (react E p x)"
    using Cons.prems(1) by (rule shutdown_inv_react)
  have stopped: "proc_status (run E xs (react E p x)) = Exited 0"
    if "proc_status (react E p x) \<noteq> Running"
  proof -
    have "proc_status (react E p x) = Exited 0"
      using inv' that by (cases "proc_status (react E p x)") (auto simp: shutdown_inv_def)
    then show ?thesis
      using run_not_Running [of "react E p x" E xs] by simp
  qed
  show ?case
  proof (cases x)
    case Signal
    have "proc_status (run E xs (react E p x)) = Exited 0"
    proof (rule Cons.IH [OF inv'])
      show "proc_status (react E p x) = Running"
        using Cons.prems Signal by simp
      show "\<not> sig_waiting (react E p x)"
        using Cons.prems Signal by simp
      show "length (todo (react E p x)) \<le> length (filter (\<lambda>x. x = Step) xs)"
        using Cons.prems Signal by simp
    qed
    then show ?thesis by (simp add: run_Cons)
  next
    case AcceptFails
    show ?thesis
    proof (cases "proc_status (react E p x) = Running")
      case True
      have "proc_status (run E xs (react E p x)) = Exited 0"
      proof (rule Cons.IH [OF inv' True])
        show "\<not> sig_waiting (react E p x)"
          using Cons.prems AcceptFails by (simp split: if_splits)
        show "length (todo (react E p x)) \<le> length (filter (\<lambda>x. x = Step) xs)"
          using Cons.prems AcceptFails by (simp split: if_splits)
      qed
      then show ?thesis by (simp add: run_Cons)
    next
      case False
      then show ?thesis using stopped by (simp add: run_Cons)
    qed
  next
    case Step
    have nonempty: "todo p \<noteq> []"
    proof
      assume "todo p = []"
      then have "performed p = Shutdown E d" "\<forall>c. Exit c \<notin> set (performed p)"
        using Cons.prems by (auto simp: shutdown_inv_def)
      then show False using Shutdown_last [of E d] by auto
    qed
    then obtain a rest where todo: "todo p = a # rest" by (auto simp: neq_Nil_conv)
    show ?thesis
    proof (cases "proc_status (react E p x) = Running")
      case True
      have "proc_status (run E xs (react E p x)) = Exited 0"
      proof (rule Cons.IH [OF inv' True])
        show "\<not> sig_waiting (react E p x)"
          using Cons.prems Step todo by (cases a) (auto split: if_splits)
        show "length (todo (react E p x)) \<le> length (filter (\<lambda>x. x = Step) xs)"
          using Cons.prems Step todo by (cases a) (auto split: if_splits)
      qed
      then show ?thesis by (simp add: run_Cons)
    next
      case False
      then show ?thesis using stopped by (simp add: run_Cons)
    qed
  qed
qed

text \<open>
  What holds of the process under any sequence of signals, of steps of the call of
  \<open>Shutdown\<close> and of errors of \<open>Accept\<close>. It never panics: however many signals arrive, the
  goroutine that calls \<open>Shutdown\<close> receives one only, so no channel is closed twice. The
  statements that have run are an initial part of \<open>Shutdown\<close>, in its order. A process that
  has stopped has exited with status 0. It does not hang: once a signal has come and as
  many steps as \<open>Shutdown\<close> has statements, the process has exited.
  Nothing here says that every statement of \<open>Shutdown\<close> runs.
\<close>

lemma shutdown_safe:
  "proc_status (run E stimuli (started d w)) \<noteq> Panicked"
  "performed (run E stimuli (started d w)) =
     take (length (performed (run E stimuli (started d w)))) (Shutdown E d)"
  "proc_status (run E stimuli (started d w)) \<noteq> Running \<Longrightarrow>
     proc_status (run E stimuli (started d w)) = Exited 0"
  "length (Shutdown E d)
     \<le> length (filter (\<lambda>x. x = Step) (dropWhile (\<lambda>x. x \<noteq> Signal) stimuli)) \<Longrightarrow>
     proc_status (run E stimuli (started d w)) = Exited 0"
proof -
  have inv: "shutdown_inv E d (run E stimuli (started d w))"
    by (rule shutdown_inv_run) (rule shutdown_inv_started)
  show "proc_status (run E stimuli (started d w)) \<noteq> Panicked"
    using inv by (auto simp: shutdown_inv_def)
  show "performed (run E stimuli (started d w)) =
     take (length (performed (run E stimuli (started d w)))) (Shutdown E d)"
    using shutdown_inv_prefix [OF inv] .
  show "proc_status (run E stimuli (started d w)) = Exited 0"
    if "proc_status (run E stimuli (started d w)) \<noteq> Running"
    using inv that
    by (cases "proc_status (run E stimuli (started d w))")
       (auto simp: shutdown_inv_def split: if_splits)
  show "proc_status (run E stimuli (started d w)) = Exited 0"
    if enough: "length (Shutdown E d)
        \<le> length (filter (\<lambda>x. x = Step) (dropWhile (\<lambda>x. x \<noteq> Signal) stimuli))"
  proof -
    have "length (Shutdown E d) > 0" by (simp add: Shutdown_def)
    then have "dropWhile (\<lambda>x. x \<noteq> Signal) stimuli \<noteq> []"
      using enough by (cases "dropWhile (\<lambda>x. x \<noteq> Signal) stimuli") simp_all
    then obtain rest where rest: "dropWhile (\<lambda>x. x \<noteq> Signal) stimuli = Signal # rest"
      by (metis (mono_tags, lifting) dropWhile_eq_Cons_conv neq_Nil_conv hd_dropWhile list.sel(1))
    define before where "before = takeWhile (\<lambda>x. x \<noteq> Signal) stimuli"
    have stim: "stimuli = before @ Signal # rest"
      using rest takeWhile_dropWhile_id [of "\<lambda>x. x \<noteq> Signal" stimuli] by (simp add: before_def)
    have "x \<noteq> Signal" if "x \<in> set before" for x
      using set_takeWhileD [OF that [unfolded before_def]] by simp
    then have start: "run E before (started d w) = started d w"
      using run_before_signal [of before E d w] by blast
    let ?p = "react E (started d w) Signal"
    have inv_p: "shutdown_inv E d ?p"
      by (rule shutdown_inv_react) (rule shutdown_inv_started)
    have "proc_status (run E rest ?p) = Exited 0"
    proof (rule shutdown_runs_to_exit [OF inv_p])
      show "proc_status ?p = Running" by (simp add: started_def)
      show "\<not> sig_waiting ?p" by (simp add: started_def)
      show "length (todo ?p) \<le> length (filter (\<lambda>x. x = Step) rest)"
        using enough rest by (simp add: started_def)
    qed
    then show ?thesis
      by (simp add: stim run_append run_Cons start)
  qed
qed

text \<open>
  Two runs of the example daemon. When every statement of \<open>Shutdown\<close> runs before \<open>main\<close>
  returns, the three markers are gone at exit.
\<close>

lemma shutdown_example_complete:
  "proc_status (run (env_ok json_example) stimuli_example
      (started daemon_example world_running)) = Exited 0"
  "performed (run (env_ok json_example) stimuli_example
      (started daemon_example world_running)) =
     [CloseDone, StopWatcher, CloseListener, CloseStore,
      RemoveFile ''.tandas/td.sock'', RemoveFile ''.tandas/daemon.pid'',
      RemoveFile ''.tandas/daemon.lock'', Exit 0]"
  "files (proc_world (run (env_ok json_example) stimuli_example
      (started daemon_example world_running))) = [''.tandas/db.sqlite'' \<mapsto> []]"
  by (simp_all add: run_def stimuli_example_def started_def Shutdown_def daemon_example_def
        env_ok_def socketName_def pidFileName_def lockFileName_def world_running_def
        Remove_def fun_eq_iff)

text \<open>
  Claim C9, at the point where the program departs from it. The statements of \<open>Shutdown\<close>
  are in the order of the claim, but the call races with the goroutine of \<open>main\<close>, which
  sits in \<open>Accept\<close>. After a signal, let \<open>Shutdown\<close> run up to \<open>d.listener.Close()\<close>; then
  \<open>Accept\<close> fails, \<open>done\<close> is closed, \<open>acceptConnections\<close> and \<open>StartDaemon\<close> return and \<open>main\<close>
  ends the process with status 0. For every daemon: the statements that have run end
  with the closing of the listener; the store has not been closed and no file has been
  removed by \<open>os.Remove\<close>; of the files only the socket is gone (closing the listener
  unlinks it), so the PID file and the lock file are left behind.
\<close>

theorem shutdown_cut_short:
  "proc_status (run E (until_listener_closed E d) (started d w)) = Exited 0
   \<and> performed (run E (until_listener_closed E d) (started d w)) =
       takeWhile (\<lambda>a. a \<noteq> CloseListener) (Shutdown E d) @ [CloseListener]
   \<and> CloseStore \<notin> set (performed (run E (until_listener_closed E d) (started d w)))
   \<and> \<not> store_closed (run E (until_listener_closed E d) (started d w))
   \<and> (\<forall>path. RemoveFile path
          \<notin> set (performed (run E (until_listener_closed E d) (started d w))))
   \<and> files (proc_world (run E (until_listener_closed E d) (started d w))) =
       Remove (files w) (Join E (dir d) socketName)
   \<and> CloseStore \<in> set (Shutdown E d)
   \<and> RemoveFile (Join E (dir d) pidFileName) \<in> set (Shutdown E d)
   \<and> RemoveFile (Join E (dir d) lockFileName) \<in> set (Shutdown E d)"
proof (cases "watcher d = None")
  case True
  note w = True
  show ?thesis
  proof (cases "traceWatcher d")
    case True
    then show ?thesis
      using w by (simp add: until_listener_closed_def Shutdown_def run_def started_def)
  next
    case False
    then show ?thesis
      using w by (simp add: until_listener_closed_def Shutdown_def run_def started_def)
  qed
next
  case False
  note w = False
  show ?thesis
  proof (cases "traceWatcher d")
    case True
    then show ?thesis
      using w by (simp add: until_listener_closed_def Shutdown_def run_def started_def)
  next
    case False
    then show ?thesis
      using w by (simp add: until_listener_closed_def Shutdown_def run_def started_def)
  qed
qed

theorem shutdown_cut_short_witness:
  "until_listener_closed (env_ok json_example) daemon_example =
     [Signal, Step, Step, Step, AcceptFails]
   \<and> proc_status (run (env_ok json_example)
        (until_listener_closed (env_ok json_example) daemon_example)
        (started daemon_example world_running)) = Exited 0
   \<and> performed (run (env_ok json_example)
        (until_listener_closed (env_ok json_example) daemon_example)
        (started daemon_example world_running)) = [CloseDone, StopWatcher, CloseListener]
   \<and> files (proc_world (run (env_ok json_example)
        (until_listener_closed (env_ok json_example) daemon_example)
        (started daemon_example world_running))) =
       [''.tandas/daemon.pid'' \<mapsto> ''4242'', ''.tandas/daemon.lock'' \<mapsto> ''{}'',
        ''.tandas/db.sqlite'' \<mapsto> []]"
proof -
  note claim = shutdown_cut_short [where E = "env_ok json_example" and d = daemon_example
            and w = world_running]
  have sd: "takeWhile (\<lambda>a. a \<noteq> CloseListener) (Shutdown (env_ok json_example) daemon_example)
      = [CloseDone, StopWatcher]"
    by (simp add: Shutdown_def daemon_example_def)
  have stim: "until_listener_closed (env_ok json_example) daemon_example =
     [Signal, Step, Step, Step, AcceptFails]"
    by (simp add: until_listener_closed_def sd)
  have fs: "Remove (files world_running) (Join (env_ok json_example) (dir daemon_example) socketName)
      = [''.tandas/daemon.pid'' \<mapsto> ''4242'', ''.tandas/daemon.lock'' \<mapsto> ''{}'',
         ''.tandas/db.sqlite'' \<mapsto> []]"
    by (simp add: Remove_def world_running_def env_ok_def daemon_example_def socketName_def
          fun_eq_iff)
  have st: "proc_status (run (env_ok json_example)
        (until_listener_closed (env_ok json_example) daemon_example)
        (started daemon_example world_running)) = Exited 0"
    using claim by blast
  have pf: "performed (run (env_ok json_example)
        (until_listener_closed (env_ok json_example) daemon_example)
        (started daemon_example world_running)) = [CloseDone, StopWatcher, CloseListener]"
    using claim unfolding sd by simp
  have fl: "files (proc_world (run (env_ok json_example)
        (until_listener_closed (env_ok json_example) daemon_example)
        (started daemon_example world_running))) =
       [''.tandas/daemon.pid'' \<mapsto> ''4242'', ''.tandas/daemon.lock'' \<mapsto> ''{}'',
        ''.tandas/db.sqlite'' \<mapsto> []]"
    using claim unfolding fs by blast
  show ?thesis
    using stim st pf fl by blast
qed

section \<open>Debounce\<close>

text \<open>
  What the loop of \<open>Start\<close> does with a burst: events that pass both tests, each less than
  the debounce duration after the one before, leave one pending timer, due one debounce
  duration after the last of them, and no callback has run. Events that fail a test, and
  errors, change nothing.
\<close>

lemma elapse_not_due:
  "pending st = Some due \<Longrightarrow> t < due \<Longrightarrow> elapse t st = st"
  by (simp add: elapse_def)

lemma elapse_no_pending: "pending st = None \<Longrightarrow> elapse t st = st"
  by (simp add: elapse_def)

lemma Start_burst:
  assumes "\<forall>x \<in> set es. \<exists>ev. snd x = GotEvent ev \<and> qualifies E w ev"
    and "gaps_below (debounce w) (t0 # map fst es)"
    and "pending st = Some (t0 + debounce w)" and "timer_set st"
    and "es \<noteq> []"
  shows "Start E w es st = st\<lparr>pending := Some (fst (last es) + debounce w)\<rparr>"
  using assms
proof (induction es arbitrary: t0 st)
  case Nil
  then show ?case by simp
next
  case (Cons x rest)
  obtain t ev where x: "x = (t, GotEvent ev)" and q: "qualifies E w ev"
    using Cons.prems(1) by (cases x) auto
  have t: "t0 \<le> t" "t < t0 + debounce w"
    using Cons.prems(2) x by auto
  have el: "elapse t st = st"
    using Cons.prems(3) t by (simp add: elapse_not_due)
  let ?st' = "AfterFunc (t + debounce w) (stop_if_set st)"
  have st': "?st' = st\<lparr>pending := Some (t + debounce w)\<rparr>"
    using Cons.prems(4) by (simp add: AfterFunc_def stop_if_set_def timer_Stop_def)
  have step: "Start E w (x # rest) st = Start E w rest ?st'"
    using q el by (simp add: x qualifies_def)
  show ?case
  proof (cases "rest = []")
    case True
    then show ?thesis using step st' by (simp add: x)
  next
    case False
    have "Start E w rest ?st' = ?st'\<lparr>pending := Some (fst (last rest) + debounce w)\<rparr>"
    proof (rule Cons.IH [where ?t0.0 = t])
      show "\<forall>x \<in> set rest. \<exists>ev. snd x = GotEvent ev \<and> qualifies E w ev"
        using Cons.prems(1) by simp
      show "gaps_below (debounce w) (t # map fst rest)"
        using Cons.prems(2) x by simp
      show "pending ?st' = Some (t + debounce w)" by (simp add: st')
      show "timer_set ?st'" using Cons.prems(4) by (simp add: st')
      show "rest \<noteq> []" by (rule False)
    qed
    then show ?thesis using step st' False by simp
  qed
qed

lemma Start_burst_callbacks:
  assumes "\<forall>x \<in> set es. \<exists>ev. snd x = GotEvent ev \<and> qualifies E w ev"
    and "gaps_below (debounce w) (map fst es)"
    and "es \<noteq> []"
  shows "callbacks (Start E w es no_timer) = [fst (last es) + debounce w]"
proof -
  obtain x rest where es: "es = x # rest" using assms(3) by (cases es) auto
  obtain t ev where x: "x = (t, GotEvent ev)" and q: "qualifies E w ev"
    using assms(1) es by (cases x) auto
  let ?st = "AfterFunc (t + debounce w) no_timer"
  have step: "Start E w es no_timer = Start E w rest ?st"
    using q by (simp add: es x qualifies_def elapse_def no_timer_def stop_if_set_def)
  show ?thesis
  proof (cases "rest = []")
    case True
    then show ?thesis
      using step by (simp add: es x callbacks_def AfterFunc_def no_timer_def)
  next
    case False
    have "Start E w rest ?st = ?st\<lparr>pending := Some (fst (last rest) + debounce w)\<rparr>"
    proof (rule Start_burst [where ?t0.0 = t])
      show "\<forall>x \<in> set rest. \<exists>ev. snd x = GotEvent ev \<and> qualifies E w ev"
        using assms(1) es by simp
      show "gaps_below (debounce w) (t # map fst rest)"
        using assms(2) es x by simp
      show "pending ?st = Some (t + debounce w)" by (simp add: AfterFunc_def)
      show "timer_set ?st" by (simp add: AfterFunc_def)
      show "rest \<noteq> []" by (rule False)
    qed
    then show ?thesis
      using step False by (simp add: es callbacks_def AfterFunc_def no_timer_def)
  qed
qed

lemma Start_ignores:
  assumes "\<forall>x \<in> set es. snd x = GotError \<or> (\<exists>ev. snd x = GotEvent ev \<and> \<not> qualifies E w ev)"
    and "pending st = None"
  shows "Start E w es st = st"
  using assms
proof (induction es)
  case Nil
  then show ?case by simp
next
  case (Cons x rest)
  obtain t r where x: "x = (t, r)" by (cases x)
  show ?case
    using Cons x by (auto simp: elapse_no_pending qualifies_def)
qed

text \<open>
  Claim C10, at the point where the program departs from it. \<open>Stop\<close> closes \<open>done\<close> and
  the fsnotify watcher, hence the channel of events. A \<open>select\<close> that finds both closed
  may take either case. With the case \<open>done\<close> the pending timer is stopped and the
  callback never runs; with the closed channel of events the loop returns and the timer
  stays: after one write at time 0 and \<open>Stop\<close> 100 ms later, the callback runs at 500 ms.
\<close>

theorem stop_leaves_timer_pending:
  "qualifies (env_ok json_example) (watch_New ''.tandas/issues.jsonl'') write_event
   \<and> callbacks (Start (env_ok json_example) (watch_New ''.tandas/issues.jsonl'')
        [(0, GotEvent write_event), (100 * Millisecond, DoneClosed)] no_timer) = []
   \<and> callbacks (Start (env_ok json_example) (watch_New ''.tandas/issues.jsonl'')
        [(0, GotEvent write_event), (100 * Millisecond, EventsClosed)] no_timer)
       = [500 * Millisecond]
   \<and> 100 * Millisecond < 500 * Millisecond"
  by (simp add: qualifies_def env_ok_def watch_New_def write_event_def path_Base_def
        fsnotify_Write_def fsnotify_Create_def elapse_def no_timer_def stop_if_set_def
        AfterFunc_def timer_Stop_def callbacks_def Millisecond_def)


section \<open>Export\<close>

lemma write_all_Inr:
  "write_all E ts buf = Inr out \<Longrightarrow> out = buf @ jsonl_of (codec E) ts"
proof (induction ts arbitrary: buf)
  case Nil
  then show ?case by (simp add: jsonl_of_def)
next
  case (Cons t ts)
  from Cons.prems obtain data where data: "marshal_tanda (codec E) t = Some data"
    and rest: "write_all E ts (buf @ data @ [CHR 0x0A]) = Inr out"
    by (auto split: option.splits if_splits)
  have "out = (buf @ data @ [CHR 0x0A]) @ jsonl_of (codec E) ts"
    using Cons.IH [OF rest] .
  then show ?case by (simp add: jsonl_of_def text_of_def data)
qed

lemma CreateTemp_Some:
  "CreateTemp E fs d pat = Some tmp \<Longrightarrow> fs tmp = None \<and> tmp \<in> set (TempNames E d pat)"
  by (auto simp: CreateTemp_def find_Some_iff split: if_splits)

lemma Remove_created: "fs tmp = None \<Longrightarrow> Remove (fs(tmp \<mapsto> x)) tmp = fs"
  by (auto simp: Remove_def)

lemma Rename_written:
  "fs tmp = None \<Longrightarrow> tmp \<noteq> dst \<Longrightarrow> Rename (fs(tmp \<mapsto> y)) tmp dst = fs(dst \<mapsto> y)"
  by (auto simp: Rename_def)

text \<open>
  Claim C2. \<open>os.CreateTemp\<close> hands out a name that did not exist; the log is taken not to
  be one of the names it may hand out (they end in \<open>.jsonl.tmp\<close>). Then for every
  \<open>ExportToJSONL\<close>: when it returns an error, at whatever stage, all files are as before
  the call (the temporary file is gone, the log untouched), and so are the table and
  \<open>lastSync\<close>; a failure of the query, of the creation of the temporary file, of the
  flush, of the close or of the rename does give an error; when it returns no error the
  files are those before the call with the log replaced by one line per record of the
  store; and in every state the file system passes through but the last, the log is what
  it was before the call: it changes in the last step only, the rename.
\<close>

theorem export_atomic:
  assumes "jsonlPath s \<notin> set (TempNames E (Dir E (jsonlPath s)) ''issues-*.jsonl.tmp'')"
  shows "(exp_err (ExportToJSONL E s w) \<noteq> None \<longrightarrow>
            exp_world (ExportToJSONL E s w) = w \<and> exp_syncer (ExportToJSONL E s w) = s)
         \<and> (exp_err (ExportToJSONL E s w) = None \<longrightarrow>
            (case GetAllTandas (faults E) (codec E) (table w) of
               Inl e \<Rightarrow> False
             | Inr tandas \<Rightarrow>
                 files (exp_world (ExportToJSONL E s w)) =
                   (files w)(jsonlPath s \<mapsto> jsonl_of (codec E) tandas))
            \<and> table (exp_world (ExportToJSONL E s w)) = table w)
         \<and> (\<forall>f \<in> set (butlast (exp_trace (ExportToJSONL E s w))).
               f (jsonlPath s) = files w (jsonlPath s))
         \<and> (faults E FGetAll \<or> faults E FCreateTemp \<or> faults E FFlush \<or> faults E FCloseTemp
              \<or> faults E FRename \<longrightarrow> exp_err (ExportToJSONL E s w) \<noteq> None)
         \<and> hd (exp_trace (ExportToJSONL E s w)) = files w
         \<and> last (exp_trace (ExportToJSONL E s w)) = files (exp_world (ExportToJSONL E s w))"
proof (cases "GetAllTandas (faults E) (codec E) (table w)")
  case (Inl e)
  then show ?thesis by (simp add: ExportToJSONL_def)
next
  case (Inr tandas)
  note get = Inr
  show ?thesis
  proof (cases "CreateTemp E (files w) (Dir E (jsonlPath s)) ''issues-*.jsonl.tmp''")
    case None
    then show ?thesis using get by (simp add: ExportToJSONL_def GetAllTandas_def split: if_splits)
  next
    case (Some tmp)
    have fresh: "files w tmp = None" and cand: "tmp \<in> set (TempNames E (Dir E (jsonlPath s)) ''issues-*.jsonl.tmp'')"
      using CreateTemp_Some [OF Some] by simp_all
    have ne: "tmp \<noteq> jsonlPath s" using cand assms by auto
    have other: "((files w)(tmp \<mapsto> x)) (jsonlPath s) = files w (jsonlPath s)" for x
      using ne by simp
    have w_id: "w\<lparr>files := files w\<rparr> = w" by simp
    show ?thesis
    proof (cases "write_all E tandas []")
      case (Inl e)
      then show ?thesis
        using get Some fresh ne
        by (simp add: ExportToJSONL_def Let_def Remove_created GetAllTandas_def CreateTemp_def
              split: if_splits)
    next
      case (Inr buf)
      have buf: "buf = jsonl_of (codec E) tandas"
        using write_all_Inr [OF Inr] by simp
      have no_get: "\<not> faults E FGetAll"
        using get by (simp add: GetAllTandas_def split: if_splits)
      have no_create: "\<not> faults E FCreateTemp"
        using Some by (simp add: CreateTemp_def split: if_splits)
      show ?thesis
        using get Some Inr fresh ne buf no_get no_create
        by (simp add: ExportToJSONL_def Let_def Remove_created Rename_written)
    qed
  qed
qed


lemma scan_new_row_login: "scan_row json_example (new_row json_example tanda_login) = tanda_login"
  by (simp add: scan_row_def new_row_def Let_def json_example_def json_tables_def
        tanda_login_def text_of_def lookup_text_def nonnil_def)

lemma scan_new_row_checkout:
  "scan_row json_example (new_row json_example tanda_checkout) = tanda_checkout"
  by (simp add: scan_row_def new_row_def Let_def json_example_def json_tables_def
        tanda_checkout_def text_of_def lookup_text_def nonnil_def)

lemma updated_at_examples:
  "col_updated_at (new_row J tanda_login) = ''2025-01-03T00:00:00Z''"
  "col_updated_at (new_row J tanda_checkout) = ''2025-01-06T00:00:00Z''"
  by (simp_all add: new_row_def Let_def tanda_login_def tanda_checkout_def)

lemma GetAll_world_two:
  "GetAllTandas (\<lambda>f. False) json_example (table world_two) = Inr [tanda_checkout, tanda_login]"
  "GetAllTandas (\<lambda>f. f = FRename) json_example (table world_two)
     = Inr [tanda_checkout, tanda_login]"
  by (simp_all add: GetAllTandas_def order_by_updated_at_desc_def world_two_def
        updated_at_examples scan_new_row_login scan_new_row_checkout)

lemma marshal_examples:
  "marshal_tanda json_example tanda_login = Some ''{\"id\":\"td-1\",\"title\":\"Login\"}''"
  "marshal_tanda json_example tanda_checkout = Some ''{\"id\":\"td-2\",\"title\":\"Checkout\"}''"
  by (simp_all add: json_example_def json_tables_def tanda_login_def tanda_checkout_def)

lemma ID_examples: "ID tanda_login = ''td-1''" "ID tanda_checkout = ''td-2''"
  by (simp_all add: tanda_login_def tanda_checkout_def)

lemma write_all_two:
  "write_all (env_ok json_example) [tanda_checkout, tanda_login] [] = Inr jsonl_two"
  "write_all env_rename_fails [tanda_checkout, tanda_login] [] = Inr jsonl_two"
  by (simp_all add: env_ok_def env_rename_fails_def marshal_examples jsonl_two_def)

lemma CreateTemp_two:
  "CreateTemp (env_ok json_example) (files world_two)
     (Dir (env_ok json_example) ''.tandas/issues.jsonl'') ''issues-*.jsonl.tmp''
     = Some ''.tandas/issues-1.jsonl.tmp''"
  "CreateTemp env_rename_fails (files world_two)
     (Dir env_rename_fails ''.tandas/issues.jsonl'') ''issues-*.jsonl.tmp''
     = Some ''.tandas/issues-1.jsonl.tmp''"
  by (simp_all add: CreateTemp_def env_ok_def env_rename_fails_def world_two_def path_Dir_def)

lemma export_two_fails:
  "exp_err (ExportToJSONL env_rename_fails (New ''.tandas/issues.jsonl'') world_two)
     = Some ErrRename"
  using GetAll_world_two(2) CreateTemp_two(2) write_all_two(2)
  by (simp add: ExportToJSONL_def New_def Let_def env_rename_fails_def env_ok_def)

lemma export_two_ok:
  "exp_err (ExportToJSONL (env_ok json_example) (New ''.tandas/issues.jsonl'') world_two) = None"
  "map (\<lambda>f. f ''.tandas/issues.jsonl'')
       (exp_trace (ExportToJSONL (env_ok json_example) (New ''.tandas/issues.jsonl'') world_two))
     = [Some (''old'' @ [CHR 0x0A]), Some (''old'' @ [CHR 0x0A]), Some (''old'' @ [CHR 0x0A]),
        Some jsonl_two]"
  "map (\<lambda>f. f ''.tandas/issues-1.jsonl.tmp'')
       (exp_trace (ExportToJSONL (env_ok json_example) (New ''.tandas/issues.jsonl'') world_two))
     = [None, Some [], Some jsonl_two, None]"
  using GetAll_world_two(1) CreateTemp_two(1) write_all_two(1)
  by (simp_all add: ExportToJSONL_def New_def Let_def env_ok_def Rename_def world_two_def)


theorem export_atomic_witness:
  "jsonlPath (New ''.tandas/issues.jsonl'')
     \<notin> set (TempNames env_rename_fails
              (Dir env_rename_fails (jsonlPath (New ''.tandas/issues.jsonl'')))
              ''issues-*.jsonl.tmp'')
   \<and> faults env_rename_fails FRename
   \<and> exp_err (ExportToJSONL env_rename_fails (New ''.tandas/issues.jsonl'') world_two)
       = Some ErrRename
   \<and> exp_world (ExportToJSONL env_rename_fails (New ''.tandas/issues.jsonl'') world_two)
       = world_two
   \<and> exp_err (ExportToJSONL (env_ok json_example) (New ''.tandas/issues.jsonl'') world_two)
       = None
   \<and> files (exp_world (ExportToJSONL (env_ok json_example) (New ''.tandas/issues.jsonl'')
        world_two)) = (files world_two)(''.tandas/issues.jsonl'' \<mapsto> jsonl_two)
   \<and> map (\<lambda>f. f ''.tandas/issues.jsonl'')
        (exp_trace (ExportToJSONL (env_ok json_example) (New ''.tandas/issues.jsonl'')
           world_two))
       = [Some (''old'' @ [CHR 0x0A]), Some (''old'' @ [CHR 0x0A]),
          Some (''old'' @ [CHR 0x0A]), Some jsonl_two]"
proof -
  have names: "jsonlPath (New ''.tandas/issues.jsonl'')
     \<notin> set (TempNames env_rename_fails
              (Dir env_rename_fails (jsonlPath (New ''.tandas/issues.jsonl'')))
              ''issues-*.jsonl.tmp'')"
    by (simp add: New_def env_rename_fails_def env_ok_def path_Dir_def)
  have names_ok: "jsonlPath (New ''.tandas/issues.jsonl'')
     \<notin> set (TempNames (env_ok json_example)
              (Dir (env_ok json_example) (jsonlPath (New ''.tandas/issues.jsonl'')))
              ''issues-*.jsonl.tmp'')"
    by (simp add: New_def env_ok_def path_Dir_def)
  have fault: "faults env_rename_fails FRename"
    by (simp add: env_rename_fails_def)
  have restored: "exp_world (ExportToJSONL env_rename_fails (New ''.tandas/issues.jsonl'')
      world_two) = world_two"
    using export_atomic [OF names, where w = world_two] export_two_fails by simp
  have jsonl: "jsonl_of (codec (env_ok json_example)) [tanda_checkout, tanda_login] = jsonl_two"
    by (simp add: jsonl_of_def env_ok_def marshal_examples text_of_def jsonl_two_def)
  have "files (exp_world (ExportToJSONL (env_ok json_example) (New ''.tandas/issues.jsonl'')
        world_two)) = (files world_two)(''.tandas/issues.jsonl'' \<mapsto> jsonl_two)"
    using export_atomic [OF names_ok, where w = world_two] export_two_ok(1)
      GetAll_world_two(1) jsonl
    by (simp add: env_ok_def New_def)
  then show ?thesis
    using names fault export_two_fails restored export_two_ok(1,2) by simp
qed

section \<open>Import\<close>


lemma records_of_Nil [simp]: "records_of J [] = []"
  by (simp add: records_of_def map_filter_simps)

lemma records_of_Cons:
  "records_of J (line # rest) =
     (if line = [] then records_of J rest
      else case unmarshal_tanda J line of
             None \<Rightarrow> records_of J rest
           | Some t \<Rightarrow> init_slices t # records_of J rest)"
  by (simp add: records_of_def map_filter_simps split: option.splits)

lemma warnings_of_Nil [simp]: "warnings_of J n [] = []"
  by (simp add: warnings_of_def)

lemma warnings_of_Cons:
  "warnings_of J n (line # rest) =
     (if malformed J line then ParseWarning (Suc n) # warnings_of J (Suc n) rest
      else warnings_of J (Suc n) rest)"
  by (simp add: warnings_of_def)



lemma import_loop_healthy:
  assumes "\<forall>i. \<not> faults E (FUpsert i)"
  shows "import_loop E ls n st =
     \<lparr>st_table = foldl (\<lambda>tbl t. insert_on_conflict (new_row (codec E) t) tbl) (st_table st)
                   (records_of (codec E) ls),
      st_warnings = st_warnings st @ warnings_of (codec E) n ls,
      st_upserts = st_upserts st @ records_of (codec E) ls\<rparr>"
proof (induction ls arbitrary: n st)
  case Nil
  then show ?case by simp
next
  case (Cons line rest)
  show ?case
    using assms
    by (simp add: Cons.IH records_of_Cons warnings_of_Cons malformed_def UpsertTanda_def Let_def
             split: option.splits)
qed

lemma insert_on_conflict_fresh:
  "col_id e \<notin> set (map col_id tbl) \<Longrightarrow> insert_on_conflict e tbl = tbl @ [e]"
  by (induction tbl) auto

lemma foldl_insert_distinct:
  "distinct (map col_id tbl @ map ID rs) \<Longrightarrow>
   foldl (\<lambda>tbl t. insert_on_conflict (new_row J t) tbl) tbl rs = tbl @ map (new_row J) rs"
proof (induction rs arbitrary: tbl)
  case Nil
  then show ?case by simp
next
  case (Cons r rs)
  have fresh: "col_id (new_row J r) \<notin> set (map col_id tbl)"
    using Cons.prems by auto
  have "distinct (map col_id (tbl @ [new_row J r]) @ map ID rs)"
    using Cons.prems by auto
  then show ?case
    using Cons.IH [of "tbl @ [new_row J r]"] fresh
    by (simp add: insert_on_conflict_fresh)
qed


lemma ScanLines_line:
  "CHR 0x0A \<notin> set l \<Longrightarrow>
   ScanLines acc (l @ CHR 0x0A # rest) = (rev acc @ l) # ScanLines [] rest"
  by (induction l arbitrary: acc) auto

lemma ScanLines_concat:
  "\<forall>l \<in> set ls. CHR 0x0A \<notin> set l \<Longrightarrow>
   ScanLines [] (concat (map (\<lambda>l. l @ [CHR 0x0A]) ls)) = ls"
proof (induction ls)
  case Nil
  then show ?case by simp
next
  case (Cons l ls)
  have "ScanLines [] (l @ CHR 0x0A # concat (map (\<lambda>l. l @ [CHR 0x0A]) ls)) =
        (rev [] @ l) # ScanLines [] (concat (map (\<lambda>l. l @ [CHR 0x0A]) ls))"
    using Cons.prems by (intro ScanLines_line) simp
  then show ?case using Cons by simp
qed

lemma jsonl_of_concat:
  "jsonl_of J ts = concat (map (\<lambda>l. l @ [CHR 0x0A]) (map (\<lambda>t. text_of (marshal_tanda J t)) ts))"
  by (simp add: jsonl_of_def comp_def)

lemma line_ok_text:
  assumes "line_ok J t"
  shows "marshal_tanda J t \<noteq> None"
    and "text_of (marshal_tanda J t) \<noteq> []"
    and "CHR 0x0A \<notin> set (text_of (marshal_tanda J t))"
    and "dropCR (text_of (marshal_tanda J t)) = text_of (marshal_tanda J t)"
    and "unmarshal_tanda J (text_of (marshal_tanda J t)) = Some t"
  using assms by (auto simp: line_ok_def text_of_def dropCR_def split: option.splits)

lemma init_slices_nonnil: "collections_nonnil t \<Longrightarrow> init_slices t = t"
  by (simp add: init_slices_def nonnil_def collections_nonnil_def)

lemma records_of_lines:
  assumes "\<forall>t \<in> set ts. line_ok J t \<and> collections_nonnil t"
  shows "records_of J (map (\<lambda>t. text_of (marshal_tanda J t)) ts) = ts"
  using assms
  by (induction ts) (auto simp: records_of_Cons line_ok_text init_slices_nonnil)

lemma warnings_of_lines:
  assumes "\<forall>t \<in> set ts. line_ok J t"
  shows "warnings_of J n (map (\<lambda>t. text_of (marshal_tanda J t)) ts) = []"
  using assms
  by (induction ts arbitrary: n) (auto simp: warnings_of_Cons malformed_def line_ok_text)

lemma scan_row_new_row:
  assumes "columns_ok J t" "collections_nonnil t"
  shows "scan_row J (new_row J t) = t"
  using assms
  by (auto simp: scan_row_def new_row_def Let_def columns_ok_def collections_nonnil_def
        text_of_def nonnil_def split: option.splits)

lemma ID_scan_row [simp]: "ID (scan_row J r) = col_id r"
  by (simp add: scan_row_def)

lemma set_order_by [simp]: "set (order_by_updated_at_desc tbl) = set tbl"
  by (simp add: order_by_updated_at_desc_def)

lemma length_order_by [simp]: "length (order_by_updated_at_desc tbl) = length tbl"
  by (simp add: order_by_updated_at_desc_def)

lemma distinct_ids_order_by:
  assumes "distinct (map col_id tbl)"
  shows "distinct (map col_id (order_by_updated_at_desc tbl))"
proof -
  have "distinct tbl" "inj_on col_id (set tbl)"
    using assms by (auto simp: distinct_map)
  then show ?thesis
    by (simp add: order_by_updated_at_desc_def distinct_map)
qed

lemma write_all_ok:
  assumes "\<forall>t \<in> set ts. marshal_tanda (codec E) t \<noteq> None"
    and "\<forall>f. \<not> faults E f"
  shows "write_all E ts buf = Inr (buf @ jsonl_of (codec E) ts)"
  using assms
  by (induction ts arbitrary: buf) (auto simp: jsonl_of_def text_of_def)

lemma export_ok:
  assumes "GetAllTandas (faults E) (codec E) (table w) = Inr tandas"
    and "CreateTemp E (files w) (Dir E (jsonlPath s)) ''issues-*.jsonl.tmp'' = Some tmp"
    and "write_all E tandas [] = Inr buf"
    and "\<not> faults E FFlush" "\<not> faults E FCloseTemp" "\<not> faults E FRename"
    and "tmp \<noteq> jsonlPath s"
  shows "exp_err (ExportToJSONL E s w) = None"
    and "exp_syncer (ExportToJSONL E s w) = s\<lparr>lastSync := now E\<rparr>"
    and "exp_world (ExportToJSONL E s w) = w\<lparr>files := (files w)(jsonlPath s \<mapsto> buf)\<rparr>"
proof -
  have fresh: "files w tmp = None"
    using CreateTemp_Some [OF assms(2)] by simp
  show "exp_err (ExportToJSONL E s w) = None"
    and "exp_syncer (ExportToJSONL E s w) = s\<lparr>lastSync := now E\<rparr>"
    and "exp_world (ExportToJSONL E s w) = w\<lparr>files := (files w)(jsonlPath s \<mapsto> buf)\<rparr>"
    using assms fresh by (simp_all add: ExportToJSONL_def Let_def Rename_written)
qed


lemma maxTokenSize_pos: "0 < maxTokenSize"
  by (simp add: maxTokenSize_def)

lemma long_line_facts:
  "long_line \<noteq> []" "CHR 0x0A \<notin> set long_line" "maxTokenSize \<le> length long_line"
  "last long_line \<noteq> CHR 0x0D"
  using maxTokenSize_pos by (simp_all add: long_line_def)

lemma ScanLines_long_line: "ScanLines [] (long_line @ [CHR 0x0A]) = [long_line]"
  using ScanLines_line [of long_line "[]" "[]"] long_line_facts(2) by simp

lemma Scan_long_line: "Scan [long_line] = ([], True)"
  using long_line_facts(3) by simp



lemma unmarshal_examples:
  "unmarshal_tanda json_example ''{\"id\":\"td-1\",\"title\":\"Login\"}'' = Some tanda_login"
  "unmarshal_tanda json_example ''{\"id\":\"td-2\",\"title\":\"Checkout\"}'' = Some tanda_checkout"
  "unmarshal_tanda json_example ''{\"id\":\"td-1\",\"title\":\"Login v2\"}'' = Some tanda_login_v2"
  "unmarshal_tanda json_example ''not json'' = None"
  by (simp_all add: json_example_def json_tables_def)











section \<open>Export followed by import\<close>

text \<open>
  The scanner in general: it delivers the lines before the first one that is too long,
  and stops with an error when there is one. The import with no failing call, for any
  log: the error is that of the scanner, and the table is made of the lines delivered.
\<close>

lemma Scan_general:
  "Scan raws =
     (map dropCR (takeWhile (\<lambda>raw. length raw < maxTokenSize) raws),
      \<exists>raw \<in> set raws. maxTokenSize \<le> length raw)"
  by (induction raws) (auto simp: not_less)

lemma ImportFromJSONL_nofault:
  assumes "files w (jsonlPath s) = Some content"
    and "\<not> faults E FOpen" and "\<not> faults E FClearAll" and "\<forall>i. \<not> faults E (FUpsert i)"
  shows "imp_err (ImportFromJSONL E s w) =
           (if \<exists>raw \<in> set (ScanLines [] content). maxTokenSize \<le> length raw
            then Some ErrReadJSONL else None)"
    and "table (imp_world (ImportFromJSONL E s w)) =
           foldl (\<lambda>tbl t. insert_on_conflict (new_row (codec E) t) tbl) []
             (records_of (codec E)
                (map dropCR (takeWhile (\<lambda>raw. length raw < maxTokenSize)
                   (ScanLines [] content))))"
    and "imp_warnings (ImportFromJSONL E s w) =
           warnings_of (codec E) 0
             (map dropCR (takeWhile (\<lambda>raw. length raw < maxTokenSize) (ScanLines [] content)))"
  using assms(1,2,3)
  by (simp_all add: ImportFromJSONL_def ClearAll_def Let_def Scan_general
        import_loop_healthy [OF assms(4)])

lemma distinct_ids_takeWhile:
  "distinct (map ID ts) \<Longrightarrow> distinct (map ID (takeWhile P ts))"
  by (metis distinct_take take_map takeWhile_eq_take)

lemma length_takeWhile_less:
  "\<exists>x \<in> set xs. \<not> P x \<Longrightarrow> length (takeWhile P xs) < length xs"
  by (induction xs) auto

text \<open>
  Claim C1, as the program has it. Let the ids of the table differ from one another (the
  primary key), let no call fail and \<open>os.CreateTemp\<close> find a name, other than the log's,
  and let the JSON codec give back each record of the store and each of its collections
  (\<open>json_roundtrip\<close>). Then \<open>ExportToJSONL\<close> returns no error and the import that follows
  prints no warning. When each record's line is shorter than \<open>1024 * 1024\<close> bytes,
  \<open>ImportFromJSONL\<close> returns no error and \<open>GetAllTandas\<close> returns afterwards the records it
  returned before: the same set, as many, with ids that differ, each with its four
  collections not nil. When some record's line has \<open>1024 * 1024\<close> bytes or more,
  \<open>ImportFromJSONL\<close> returns \<open>error reading JSONL\<close>, and the store, cleared, holds the
  records written before the first such line and no other: fewer than before.
\<close>

theorem export_import_roundtrip:
  assumes "distinct (map col_id (table w))"
    and "\<forall>f. \<not> faults E f"
    and "\<exists>p \<in> set (TempNames E (Dir E (jsonlPath s)) ''issues-*.jsonl.tmp''). files w p = None"
    and "jsonlPath s \<notin> set (TempNames E (Dir E (jsonlPath s)) ''issues-*.jsonl.tmp'')"
    and "\<forall>r \<in> set (table w). json_roundtrip (codec E) (scan_row (codec E) r)"
  shows "exp_err (ExportToJSONL E s w) = None
         \<and> imp_warnings (ImportFromJSONL E (exp_syncer (ExportToJSONL E s w))
                      (exp_world (ExportToJSONL E s w))) = []
         \<and> ((\<forall>r \<in> set (table w).
               length (text_of (marshal_tanda (codec E) (scan_row (codec E) r))) < maxTokenSize)
            \<longrightarrow>
              imp_err (ImportFromJSONL E (exp_syncer (ExportToJSONL E s w))
                        (exp_world (ExportToJSONL E s w))) = None
              \<and> (case GetAllTandas (faults E) (codec E) (table w) of
                    Inl e \<Rightarrow> False
                  | Inr before \<Rightarrow>
                      (case GetAllTandas (faults E) (codec E)
                              (table (imp_world (ImportFromJSONL E
                                 (exp_syncer (ExportToJSONL E s w))
                                 (exp_world (ExportToJSONL E s w))))) of
                         Inl e \<Rightarrow> False
                       | Inr after \<Rightarrow>
                           set after = set before \<and> length after = length before
                           \<and> distinct (map ID after)
                           \<and> (\<forall>t \<in> set after. collections_nonnil t))))
         \<and> ((\<exists>r \<in> set (table w).
               maxTokenSize \<le> length (text_of (marshal_tanda (codec E) (scan_row (codec E) r))))
            \<longrightarrow>
              imp_err (ImportFromJSONL E (exp_syncer (ExportToJSONL E s w))
                        (exp_world (ExportToJSONL E s w))) = Some ErrReadJSONL
              \<and> (case GetAllTandas (faults E) (codec E) (table w) of
                    Inl e \<Rightarrow> False
                  | Inr before \<Rightarrow>
                      (case GetAllTandas (faults E) (codec E)
                              (table (imp_world (ImportFromJSONL E
                                 (exp_syncer (ExportToJSONL E s w))
                                 (exp_world (ExportToJSONL E s w))))) of
                         Inl e \<Rightarrow> False
                       | Inr after \<Rightarrow>
                           set after =
                             set (takeWhile
                                    (\<lambda>t. length (text_of (marshal_tanda (codec E) t))
                                           < maxTokenSize) before)
                           \<and> length after < length before)))"
proof -
  let ?J = "codec E"
  let ?before = "map (scan_row ?J) (order_by_updated_at_desc (table w))"
  let ?line = "\<lambda>t. text_of (marshal_tanda ?J t)"
  let ?P = "\<lambda>t. length (?line t) < maxTokenSize"
  let ?kept = "takeWhile ?P ?before"
  let ?lines = "map ?line ?before"
  have nofault: "\<not> faults E f" for f using assms(2) by simp
  have get: "GetAllTandas (faults E) ?J (table w) = Inr ?before"
    by (simp add: GetAllTandas_def nofault)
  have rt: "json_roundtrip ?J t" and nn: "collections_nonnil t" if "t \<in> set ?before" for t
    using that assms(5) by (auto simp: collections_nonnil_scan_row)
  have lk: "line_ok ?J t" and ck: "columns_ok ?J t" if "t \<in> set ?before" for t
    using rt [OF that] by (simp_all add: json_roundtrip_def)
  have kept_sub: "t \<in> set ?before" if "t \<in> set ?kept" for t
    using set_takeWhileD [OF that] by simp
  have "find (\<lambda>p. files w p = None) (TempNames E (Dir E (jsonlPath s)) ''issues-*.jsonl.tmp'')
          \<noteq> None"
    using assms(3) by (auto simp: find_None_iff)
  then obtain tmp where tmp:
    "CreateTemp E (files w) (Dir E (jsonlPath s)) ''issues-*.jsonl.tmp'' = Some tmp"
    using nofault by (auto simp: CreateTemp_def)
  have ne: "tmp \<noteq> jsonlPath s"
    using CreateTemp_Some [OF tmp] assms(4) by auto
  have wr: "write_all E ?before [] = Inr (jsonl_of ?J ?before)"
    using write_all_ok [of ?before E "[]"] lk line_ok_text(1) assms(2) by auto
  note ex = export_ok [OF get tmp wr nofault nofault nofault ne]
  let ?w1 = "w\<lparr>files := (files w)(jsonlPath s \<mapsto> jsonl_of ?J ?before)\<rparr>"
  let ?s1 = "s\<lparr>lastSync := now E\<rparr>"
  let ?imp = "ImportFromJSONL E ?s1 ?w1"
  have noLF: "\<forall>l \<in> set ?lines. CHR 0x0A \<notin> set l"
    using lk line_ok_text(3) by auto
  have scanned: "ScanLines [] (jsonl_of ?J ?before) = ?lines"
    unfolding jsonl_of_concat using noLF by (rule ScanLines_concat)
  have delivered: "map dropCR (takeWhile (\<lambda>raw. length raw < maxTokenSize) ?lines)
      = map ?line ?kept"
  proof -
    have "takeWhile (\<lambda>raw. length raw < maxTokenSize) ?lines = map ?line ?kept"
      by (simp add: takeWhile_map comp_def)
    moreover have "map dropCR (map ?line ?kept) = map ?line ?kept"
      using lk kept_sub line_ok_text(4) by (auto simp: map_idI)
    ultimately show ?thesis by simp
  qed
  have recs: "records_of ?J (map ?line ?kept) = ?kept"
    using records_of_lines [of ?kept ?J] lk nn kept_sub by blast
  have warns: "warnings_of ?J 0 (map ?line ?kept) = []"
    using warnings_of_lines [of ?kept ?J 0] lk kept_sub by blast
  have dist: "distinct (map ID ?before)"
    using distinct_ids_order_by [OF assms(1)] by (simp add: comp_def)
  have dist_kept: "distinct (map ID ?kept)"
    using dist by (rule distinct_ids_takeWhile)
  have logfile: "files ?w1 (jsonlPath ?s1) = Some (jsonl_of ?J ?before)" by simp
  note im = ImportFromJSONL_nofault [OF logfile nofault nofault, unfolded scanned delivered recs warns]
  have tbl_kept: "foldl (\<lambda>tbl t. insert_on_conflict (new_row ?J t) tbl) [] ?kept
             = map (new_row ?J) ?kept"
    using foldl_insert_distinct [of "[]" ?kept ?J] dist_kept by simp
  have imp_tbl: "table (imp_world ?imp) = map (new_row ?J) ?kept"
    using im(2) nofault tbl_kept by simp
  have imp_warn: "imp_warnings ?imp = []"
    using im(3) nofault by simp
  have imp_err: "imp_err ?imp = (if \<exists>t \<in> set ?before. \<not> ?P t then Some ErrReadJSONL else None)"
    using im(1) nofault by (auto simp: not_less)
  let ?after = "map (scan_row ?J) (order_by_updated_at_desc (map (new_row ?J) ?kept))"
  have readback: "scan_row ?J (new_row ?J t) = t" if "t \<in> set ?kept" for t
    using scan_row_new_row [OF ck [OF kept_sub [OF that]] nn [OF kept_sub [OF that]]] .
  have set_after: "set ?after = set ?kept"
  proof -
    have "set ?after = (\<lambda>t. scan_row ?J (new_row ?J t)) ` set ?kept"
      by (simp add: image_image)
    also have "\<dots> = set ?kept"
      using readback by (auto simp: image_iff)
    finally show ?thesis .
  qed
  have ids_after: "map ID ?after = map col_id (order_by_updated_at_desc (map (new_row ?J) ?kept))"
    by (simp add: comp_def)
  have dist_after: "distinct (map ID ?after)"
    unfolding ids_after
    by (rule distinct_ids_order_by) (use dist_kept in \<open>simp add: comp_def\<close>)
  have nn_after: "\<forall>t \<in> set ?after. collections_nonnil t"
    by (auto simp: collections_nonnil_scan_row)
  have get_after: "GetAllTandas (faults E) ?J (table (imp_world ?imp)) = Inr ?after"
    unfolding imp_tbl by (simp add: GetAllTandas_def nofault)
  have len_after: "length ?after = length ?kept" by simp
  have rows: "(\<forall>r \<in> set (table w). ?P (scan_row ?J r)) \<longleftrightarrow> (\<forall>t \<in> set ?before. ?P t)"
    by simp
  have short_case: "imp_err ?imp = None \<and> set ?after = set ?before
      \<and> length ?after = length ?before"
    if "\<forall>t \<in> set ?before. ?P t"
  proof -
    have keq: "?kept = ?before"
      using that by (simp only: takeWhile_eq_all_conv)
    have "imp_err ?imp = None"
      using imp_err that by simp
    moreover have "set ?after = set ?before"
      using set_after unfolding keq .
    moreover have "length ?after = length ?before"
      using len_after unfolding keq .
    ultimately show ?thesis by blast
  qed
  have long_case: "imp_err ?imp = Some ErrReadJSONL \<and> length ?after < length ?before"
    if "\<exists>t \<in> set ?before. \<not> ?P t"
    using that imp_err len_after length_takeWhile_less [of ?before ?P] by simp
  have part1: "exp_err (ExportToJSONL E s w) = None"
    by (rule ex(1))
  have part2: "imp_warnings (ImportFromJSONL E (exp_syncer (ExportToJSONL E s w))
                      (exp_world (ExportToJSONL E s w))) = []"
    unfolding ex using imp_warn .
  have part3: "imp_err (ImportFromJSONL E (exp_syncer (ExportToJSONL E s w))
                        (exp_world (ExportToJSONL E s w))) = None
              \<and> (case GetAllTandas (faults E) (codec E) (table w) of
                    Inl e \<Rightarrow> False
                  | Inr before \<Rightarrow>
                      (case GetAllTandas (faults E) (codec E)
                              (table (imp_world (ImportFromJSONL E
                                 (exp_syncer (ExportToJSONL E s w))
                                 (exp_world (ExportToJSONL E s w))))) of
                         Inl e \<Rightarrow> False
                       | Inr after \<Rightarrow>
                           set after = set before \<and> length after = length before
                           \<and> distinct (map ID after)
                           \<and> (\<forall>t \<in> set after. collections_nonnil t)))"
    if "\<forall>r \<in> set (table w).
          length (text_of (marshal_tanda (codec E) (scan_row (codec E) r))) < maxTokenSize"
  proof -
    have "\<forall>t \<in> set ?before. ?P t" using that by simp
    then show ?thesis
      unfolding ex get get_after
      using short_case dist_after nn_after by simp
  qed
  have part4: "imp_err (ImportFromJSONL E (exp_syncer (ExportToJSONL E s w))
                        (exp_world (ExportToJSONL E s w))) = Some ErrReadJSONL
              \<and> (case GetAllTandas (faults E) (codec E) (table w) of
                    Inl e \<Rightarrow> False
                  | Inr before \<Rightarrow>
                      (case GetAllTandas (faults E) (codec E)
                              (table (imp_world (ImportFromJSONL E
                                 (exp_syncer (ExportToJSONL E s w))
                                 (exp_world (ExportToJSONL E s w))))) of
                         Inl e \<Rightarrow> False
                       | Inr after \<Rightarrow>
                           set after =
                             set (takeWhile
                                    (\<lambda>t. length (text_of (marshal_tanda (codec E) t))
                                           < maxTokenSize) before)
                           \<and> length after < length before))"
    if "\<exists>r \<in> set (table w).
          maxTokenSize \<le> length (text_of (marshal_tanda (codec E) (scan_row (codec E) r)))"
  proof -
    have "\<exists>t \<in> set ?before. \<not> ?P t" using that by (auto simp: not_less)
    then show ?thesis
      unfolding ex get get_after
      using long_case set_after by simp
  qed
  show ?thesis
    using part1 part2 part3 part4 by blast
qed

lemma roundtrip_examples:
  "json_roundtrip json_example tanda_login" "json_roundtrip json_example tanda_checkout"
  by (simp_all add: json_roundtrip_def line_ok_def columns_ok_def marshal_examples
        unmarshal_examples)
     (simp_all add: json_example_def json_tables_def lookup_text_def tanda_login_def
        tanda_checkout_def)

lemma short_examples:
  "length (text_of (marshal_tanda json_example tanda_login)) < maxTokenSize"
  "length (text_of (marshal_tanda json_example tanda_checkout)) < maxTokenSize"
  by (simp_all add: marshal_examples text_of_def maxTokenSize_def)

lemma codec_long:
  "marshal_tanda json_long tanda_long = Some long_line"
  "unmarshal_tanda json_long long_line = Some tanda_long"
  by (simp_all add: json_long_def json_tables_def)

lemma roundtrip_long: "json_roundtrip json_long tanda_long"
  by (simp add: json_roundtrip_def line_ok_def columns_ok_def codec_long long_line_facts)
     (simp add: json_long_def json_tables_def lookup_text_def tanda_long_def)

lemma nonnil_long: "collections_nonnil tanda_long"
  by (simp add: collections_nonnil_def tanda_long_def)

lemma scan_new_row_long: "scan_row json_long (new_row json_long tanda_long) = tanda_long"
  using scan_row_new_row [of json_long tanda_long] roundtrip_long nonnil_long
  by (simp add: json_roundtrip_def)

lemma GetAll_world_long:
  "GetAllTandas (\<lambda>f. False) json_long (table world_long) = Inr [tanda_long]"
  using scan_new_row_long
  by (simp add: GetAllTandas_def order_by_updated_at_desc_def world_long_def)

theorem export_import_roundtrip_witness:
  "distinct (map col_id (table world_two))
   \<and> GetAllTandas (faults (env_ok json_example)) (codec (env_ok json_example)) (table world_two)
       = Inr [tanda_checkout, tanda_login]
   \<and> json_roundtrip json_example tanda_checkout \<and> json_roundtrip json_example tanda_login
   \<and> exp_err (ExportToJSONL (env_ok json_example) (New log_path) world_two) = None
   \<and> imp_err (ImportFromJSONL (env_ok json_example)
        (exp_syncer (ExportToJSONL (env_ok json_example) (New log_path) world_two))
        (exp_world (ExportToJSONL (env_ok json_example) (New log_path) world_two))) = None
   \<and> (case GetAllTandas (faults (env_ok json_example)) (codec (env_ok json_example))
          (table (imp_world (ImportFromJSONL (env_ok json_example)
             (exp_syncer (ExportToJSONL (env_ok json_example) (New log_path) world_two))
             (exp_world (ExportToJSONL (env_ok json_example) (New log_path) world_two))))) of
         Inl e \<Rightarrow> False
       | Inr after \<Rightarrow> set after = {tanda_checkout, tanda_login} \<and> length after = 2)
   \<and> json_roundtrip json_long tanda_long
   \<and> maxTokenSize \<le> length (text_of (marshal_tanda json_long tanda_long))
   \<and> exp_err (ExportToJSONL (env_ok json_long) (New log_path) world_long) = None
   \<and> imp_err (ImportFromJSONL (env_ok json_long)
        (exp_syncer (ExportToJSONL (env_ok json_long) (New log_path) world_long))
        (exp_world (ExportToJSONL (env_ok json_long) (New log_path) world_long)))
       = Some ErrReadJSONL"
proof -
  have cod: "codec (env_ok json_example) = json_example"
    and flt: "faults (env_ok json_example) = (\<lambda>f. False)"
    by (simp_all add: env_ok_def)
  have h1: "distinct (map col_id (table world_two))"
    by (simp add: world_two_def ID_examples)
  have h2: "\<forall>f. \<not> faults (env_ok json_example) f"
    by (simp add: flt)
  have h3: "\<exists>p \<in> set (TempNames (env_ok json_example)
                (Dir (env_ok json_example) (jsonlPath (New log_path))) ''issues-*.jsonl.tmp'').
              files world_two p = None"
    by (simp add: env_ok_def New_def log_path_def path_Dir_def world_two_def)
  have h4: "jsonlPath (New log_path)
     \<notin> set (TempNames (env_ok json_example)
              (Dir (env_ok json_example) (jsonlPath (New log_path))) ''issues-*.jsonl.tmp'')"
    by (simp add: New_def log_path_def env_ok_def path_Dir_def)
  have h5: "\<forall>r \<in> set (table world_two).
      json_roundtrip (codec (env_ok json_example)) (scan_row (codec (env_ok json_example)) r)"
    by (simp add: cod world_two_def scan_new_row_login scan_new_row_checkout roundtrip_examples)
  have h6: "\<forall>r \<in> set (table world_two).
      length (text_of (marshal_tanda (codec (env_ok json_example))
                (scan_row (codec (env_ok json_example)) r))) < maxTokenSize"
    by (simp add: cod world_two_def scan_new_row_login scan_new_row_checkout short_examples)
  note claim = export_import_roundtrip [OF h1 h2 h3 h4 h5]
  have before: "GetAllTandas (faults (env_ok json_example)) (codec (env_ok json_example))
      (table world_two) = Inr [tanda_checkout, tanda_login]"
    by (simp add: cod flt GetAll_world_two(1))
  have e1: "exp_err (ExportToJSONL (env_ok json_example) (New log_path) world_two) = None"
    using claim by blast
  have e2: "imp_err (ImportFromJSONL (env_ok json_example)
        (exp_syncer (ExportToJSONL (env_ok json_example) (New log_path) world_two))
        (exp_world (ExportToJSONL (env_ok json_example) (New log_path) world_two))) = None"
    using claim h6 by blast
  have "(case GetAllTandas (faults (env_ok json_example)) (codec (env_ok json_example))
              (table world_two) of
           Inl e \<Rightarrow> False
         | Inr before \<Rightarrow>
             (case GetAllTandas (faults (env_ok json_example)) (codec (env_ok json_example))
                (table (imp_world (ImportFromJSONL (env_ok json_example)
                   (exp_syncer (ExportToJSONL (env_ok json_example) (New log_path) world_two))
                   (exp_world (ExportToJSONL (env_ok json_example) (New log_path) world_two))))) of
                Inl e \<Rightarrow> False
              | Inr after \<Rightarrow>
                  set after = set before \<and> length after = length before
                  \<and> distinct (map ID after)
                  \<and> (\<forall>t \<in> set after. collections_nonnil t)))"
    using claim h6 by blast
  then have e3: "(case GetAllTandas (faults (env_ok json_example)) (codec (env_ok json_example))
          (table (imp_world (ImportFromJSONL (env_ok json_example)
             (exp_syncer (ExportToJSONL (env_ok json_example) (New log_path) world_two))
             (exp_world (ExportToJSONL (env_ok json_example) (New log_path) world_two))))) of
         Inl e \<Rightarrow> False
       | Inr after \<Rightarrow> set after = {tanda_checkout, tanda_login} \<and> length after = 2)"
    unfolding before by (auto split: sum.splits)
  have codl: "codec (env_ok json_long) = json_long"
    and fltl: "faults (env_ok json_long) = (\<lambda>f. False)"
    by (simp_all add: env_ok_def)
  have l1: "distinct (map col_id (table world_long))"
    by (simp add: world_long_def)
  have l2: "\<forall>f. \<not> faults (env_ok json_long) f"
    by (simp add: fltl)
  have l3: "\<exists>p \<in> set (TempNames (env_ok json_long)
                (Dir (env_ok json_long) (jsonlPath (New log_path))) ''issues-*.jsonl.tmp'').
              files world_long p = None"
    by (auto simp: env_ok_def New_def log_path_def path_Dir_def world_long_def)
  have l4: "jsonlPath (New log_path)
     \<notin> set (TempNames (env_ok json_long)
              (Dir (env_ok json_long) (jsonlPath (New log_path))) ''issues-*.jsonl.tmp'')"
    by (simp add: New_def log_path_def env_ok_def path_Dir_def)
  have l5: "\<forall>r \<in> set (table world_long).
      json_roundtrip (codec (env_ok json_long)) (scan_row (codec (env_ok json_long)) r)"
    by (simp add: codl world_long_def scan_new_row_long roundtrip_long)
  have len: "maxTokenSize \<le> length (text_of (marshal_tanda json_long tanda_long))"
    by (simp add: codec_long text_of_def long_line_facts)
  have l6: "\<exists>r \<in> set (table world_long).
      maxTokenSize \<le> length (text_of (marshal_tanda (codec (env_ok json_long))
                (scan_row (codec (env_ok json_long)) r)))"
    using len by (simp add: codl world_long_def scan_new_row_long)
  note claim_long = export_import_roundtrip [OF l1 l2 l3 l4 l5]
  have g1: "exp_err (ExportToJSONL (env_ok json_long) (New log_path) world_long) = None"
    using claim_long by blast
  have g2: "imp_err (ImportFromJSONL (env_ok json_long)
        (exp_syncer (ExportToJSONL (env_ok json_long) (New log_path) world_long))
        (exp_world (ExportToJSONL (env_ok json_long) (New log_path) world_long)))
       = Some ErrReadJSONL"
    using claim_long l6 by blast
  show ?thesis
    using h1 before roundtrip_examples e1 e2 e3 roundtrip_long len g1 g2 by blast
qed

lemma export_long:
  "exp_err (ExportToJSONL (env_ok json_long) (New log_path) world_long) = None"
  "exp_syncer (ExportToJSONL (env_ok json_long) (New log_path) world_long)
     = (New log_path)\<lparr>lastSync := now (env_ok json_long)\<rparr>"
  "exp_world (ExportToJSONL (env_ok json_long) (New log_path) world_long)
     = world_long\<lparr>files := (files world_long)(jsonlPath (New log_path) \<mapsto> long_line @ [CHR 0x0A])\<rparr>"
proof -
  have get: "GetAllTandas (faults (env_ok json_long)) (codec (env_ok json_long))
      (table world_long) = Inr [tanda_long]"
    using GetAll_world_long by (simp add: env_ok_def)
  have tmp: "CreateTemp (env_ok json_long) (files world_long)
      (Dir (env_ok json_long) (jsonlPath (New log_path))) ''issues-*.jsonl.tmp''
      = Some ''.tandas/issues-1.jsonl.tmp''"
    by (simp add: CreateTemp_def env_ok_def world_long_def New_def log_path_def path_Dir_def)
  have wr: "write_all (env_ok json_long) [tanda_long] [] = Inr (long_line @ [CHR 0x0A])"
    by (simp add: env_ok_def codec_long)
  have nf: "\<not> faults (env_ok json_long) FFlush" "\<not> faults (env_ok json_long) FCloseTemp"
    "\<not> faults (env_ok json_long) FRename"
    by (simp_all add: env_ok_def)
  have ne: "''.tandas/issues-1.jsonl.tmp'' \<noteq> jsonlPath (New log_path)"
    by (simp add: New_def log_path_def)
  show "exp_err (ExportToJSONL (env_ok json_long) (New log_path) world_long) = None"
    "exp_syncer (ExportToJSONL (env_ok json_long) (New log_path) world_long)
     = (New log_path)\<lparr>lastSync := now (env_ok json_long)\<rparr>"
    "exp_world (ExportToJSONL (env_ok json_long) (New log_path) world_long)
     = world_long\<lparr>files := (files world_long)(jsonlPath (New log_path) \<mapsto> long_line @ [CHR 0x0A])\<rparr>"
    using export_ok [OF get tmp wr nf ne] by simp_all
qed

lemma import_after_export_long:
  "imp_err (ImportFromJSONL (env_ok json_long)
     (exp_syncer (ExportToJSONL (env_ok json_long) (New log_path) world_long))
     (exp_world (ExportToJSONL (env_ok json_long) (New log_path) world_long)))
   = Some ErrReadJSONL"
  "table (imp_world (ImportFromJSONL (env_ok json_long)
     (exp_syncer (ExportToJSONL (env_ok json_long) (New log_path) world_long))
     (exp_world (ExportToJSONL (env_ok json_long) (New log_path) world_long)))) = []"
  unfolding export_long
  by (simp_all add: ImportFromJSONL_def New_def env_ok_def ClearAll_def ScanLines_long_line
        long_line_facts Let_def)

lemma codec_lossy:
  "marshal_tanda json_lossy tanda_raw = Some line_replaced"
  "unmarshal_tanda json_lossy line_replaced = Some tanda_replaced"
  "marshal_strs json_lossy (Some []) = Some ''[]''"
  "unmarshal_strs json_lossy ''[]'' = Some []"
  "marshal_notes json_lossy (Some []) = Some ''[]''"
  "unmarshal_notes json_lossy ''[]'' = Some []"
  "marshal_runs json_lossy (Some []) = Some ''[]''"
  "unmarshal_runs json_lossy ''[]'' = Some []"
  by (simp_all add: json_lossy_def json_tables_def lookup_text_def tanda_raw_def
        tanda_replaced_def)

lemma scan_new_row_lossy:
  "scan_row json_lossy (new_row json_lossy tanda_raw) = tanda_raw"
  "scan_row json_lossy (new_row json_lossy tanda_replaced) = tanda_replaced"
  by (simp_all add: scan_row_def new_row_def Let_def codec_lossy text_of_def nonnil_def
        tanda_raw_def tanda_replaced_def)

lemma GetAll_world_raw:
  "GetAllTandas (\<lambda>f. False) json_lossy (table world_raw) = Inr [tanda_raw]"
  by (simp add: GetAllTandas_def order_by_updated_at_desc_def world_raw_def scan_new_row_lossy)

lemma line_replaced_facts:
  "line_replaced \<noteq> []" "CHR 0x0A \<notin> set line_replaced" "length line_replaced < maxTokenSize"
  "dropCR line_replaced = line_replaced"
  by (simp_all add: line_replaced_def maxTokenSize_def dropCR_def)

lemma export_raw:
  "exp_err (ExportToJSONL (env_ok json_lossy) (New log_path) world_raw) = None"
  "exp_syncer (ExportToJSONL (env_ok json_lossy) (New log_path) world_raw)
     = (New log_path)\<lparr>lastSync := now (env_ok json_lossy)\<rparr>"
  "exp_world (ExportToJSONL (env_ok json_lossy) (New log_path) world_raw)
     = world_raw\<lparr>files := (files world_raw)(jsonlPath (New log_path) \<mapsto> line_replaced @ [CHR 0x0A])\<rparr>"
proof -
  have get: "GetAllTandas (faults (env_ok json_lossy)) (codec (env_ok json_lossy))
      (table world_raw) = Inr [tanda_raw]"
    using GetAll_world_raw by (simp add: env_ok_def)
  have tmp: "CreateTemp (env_ok json_lossy) (files world_raw)
      (Dir (env_ok json_lossy) (jsonlPath (New log_path))) ''issues-*.jsonl.tmp''
      = Some ''.tandas/issues-1.jsonl.tmp''"
    by (simp add: CreateTemp_def env_ok_def world_raw_def New_def log_path_def path_Dir_def)
  have wr: "write_all (env_ok json_lossy) [tanda_raw] [] = Inr (line_replaced @ [CHR 0x0A])"
    by (simp add: env_ok_def codec_lossy)
  have nf: "\<not> faults (env_ok json_lossy) FFlush" "\<not> faults (env_ok json_lossy) FCloseTemp"
    "\<not> faults (env_ok json_lossy) FRename"
    by (simp_all add: env_ok_def)
  have ne: "''.tandas/issues-1.jsonl.tmp'' \<noteq> jsonlPath (New log_path)"
    by (simp add: New_def log_path_def)
  show "exp_err (ExportToJSONL (env_ok json_lossy) (New log_path) world_raw) = None"
    "exp_syncer (ExportToJSONL (env_ok json_lossy) (New log_path) world_raw)
     = (New log_path)\<lparr>lastSync := now (env_ok json_lossy)\<rparr>"
    "exp_world (ExportToJSONL (env_ok json_lossy) (New log_path) world_raw)
     = world_raw\<lparr>files := (files world_raw)(jsonlPath (New log_path) \<mapsto> line_replaced @ [CHR 0x0A])\<rparr>"
    using export_ok [OF get tmp wr nf ne] by simp_all
qed

lemma import_after_export_raw:
  "imp_err (ImportFromJSONL (env_ok json_lossy)
     (exp_syncer (ExportToJSONL (env_ok json_lossy) (New log_path) world_raw))
     (exp_world (ExportToJSONL (env_ok json_lossy) (New log_path) world_raw))) = None"
  "table (imp_world (ImportFromJSONL (env_ok json_lossy)
     (exp_syncer (ExportToJSONL (env_ok json_lossy) (New log_path) world_raw))
     (exp_world (ExportToJSONL (env_ok json_lossy) (New log_path) world_raw))))
   = [new_row json_lossy tanda_replaced]"
proof -
  have sc: "ScanLines [] (line_replaced @ [CHR 0x0A]) = [line_replaced]"
    using ScanLines_line [of line_replaced "[]" "[]"] line_replaced_facts(2) by simp
  have nn: "init_slices tanda_replaced = tanda_replaced"
    by (rule init_slices_nonnil) (simp add: collections_nonnil_def tanda_replaced_def tanda_raw_def)
  have logfile: "files (world_raw\<lparr>files := (files world_raw)(jsonlPath (New log_path) \<mapsto>
        line_replaced @ [CHR 0x0A])\<rparr>) (jsonlPath ((New log_path)\<lparr>lastSync := now (env_ok json_lossy)\<rparr>))
      = Some (line_replaced @ [CHR 0x0A])"
    by simp
  have nf: "\<not> faults (env_ok json_lossy) FOpen" "\<not> faults (env_ok json_lossy) FClearAll"
    "\<forall>i. \<not> faults (env_ok json_lossy) (FUpsert i)"
    by (simp_all add: env_ok_def)
  have cod: "codec (env_ok json_lossy) = json_lossy"
    by (simp add: env_ok_def)
  note im = ImportFromJSONL_nofault [OF logfile nf, unfolded sc cod]
  show "imp_err (ImportFromJSONL (env_ok json_lossy)
     (exp_syncer (ExportToJSONL (env_ok json_lossy) (New log_path) world_raw))
     (exp_world (ExportToJSONL (env_ok json_lossy) (New log_path) world_raw))) = None"
    unfolding export_raw using im(1) line_replaced_facts(3) by simp
  show "table (imp_world (ImportFromJSONL (env_ok json_lossy)
     (exp_syncer (ExportToJSONL (env_ok json_lossy) (New log_path) world_raw))
     (exp_world (ExportToJSONL (env_ok json_lossy) (New log_path) world_raw))))
   = [new_row json_lossy tanda_replaced]"
    unfolding export_raw using im(2) line_replaced_facts
    by (simp add: records_of_Cons codec_lossy nn)
qed

text \<open>
  The claim as written has no condition on the records. A record whose line has
  \<open>1024 * 1024\<close> bytes or more is exported, and the import that follows stops at that
  line with \<open>error reading JSONL\<close>, after it has cleared the table: the store is empty.
  And a record that the JSON codec does not give back comes back changed: \<open>json.Marshal\<close>
  writes the escape of U+FFFD for a byte that is not valid UTF-8, so a title that ends in
  the byte E9 is read back ending in the three bytes of U+FFFD; export and import return
  no error, the line is short, and the store holds another title.
\<close>

theorem export_import_roundtrip_counterexample:
  "json_roundtrip json_long tanda_long
   \<and> maxTokenSize \<le> length (text_of (marshal_tanda json_long tanda_long))
   \<and> GetAllTandas (\<lambda>f. False) json_long (table world_long) = Inr [tanda_long]
   \<and> exp_err (ExportToJSONL (env_ok json_long) (New log_path) world_long) = None
   \<and> imp_err (ImportFromJSONL (env_ok json_long)
        (exp_syncer (ExportToJSONL (env_ok json_long) (New log_path) world_long))
        (exp_world (ExportToJSONL (env_ok json_long) (New log_path) world_long)))
       = Some ErrReadJSONL
   \<and> GetAllTandas (\<lambda>f. False) json_long
        (table (imp_world (ImportFromJSONL (env_ok json_long)
           (exp_syncer (ExportToJSONL (env_ok json_long) (New log_path) world_long))
           (exp_world (ExportToJSONL (env_ok json_long) (New log_path) world_long)))))
       = Inr []
   \<and> GetAllTandas (\<lambda>f. False) json_lossy (table world_raw) = Inr [tanda_raw]
   \<and> length (text_of (marshal_tanda json_lossy tanda_raw)) < maxTokenSize
   \<and> exp_err (ExportToJSONL (env_ok json_lossy) (New log_path) world_raw) = None
   \<and> imp_err (ImportFromJSONL (env_ok json_lossy)
        (exp_syncer (ExportToJSONL (env_ok json_lossy) (New log_path) world_raw))
        (exp_world (ExportToJSONL (env_ok json_lossy) (New log_path) world_raw))) = None
   \<and> GetAllTandas (\<lambda>f. False) json_lossy
        (table (imp_world (ImportFromJSONL (env_ok json_lossy)
           (exp_syncer (ExportToJSONL (env_ok json_lossy) (New log_path) world_raw))
           (exp_world (ExportToJSONL (env_ok json_lossy) (New log_path) world_raw)))))
       = Inr [tanda_replaced]
   \<and> Title tanda_raw = ''caf'' @ [CHR 0xE9]
   \<and> Title tanda_replaced = ''caf'' @ [CHR 0xEF, CHR 0xBF, CHR 0xBD]
   \<and> tanda_replaced \<noteq> tanda_raw"
proof -
  have len: "maxTokenSize \<le> length (text_of (marshal_tanda json_long tanda_long))"
    by (simp add: codec_long text_of_def long_line_facts)
  have empty: "GetAllTandas (\<lambda>f. False) json_long
        (table (imp_world (ImportFromJSONL (env_ok json_long)
           (exp_syncer (ExportToJSONL (env_ok json_long) (New log_path) world_long))
           (exp_world (ExportToJSONL (env_ok json_long) (New log_path) world_long)))))
       = Inr []"
    unfolding import_after_export_long(2)
    by (simp add: GetAllTandas_def order_by_updated_at_desc_def)
  have short: "length (text_of (marshal_tanda json_lossy tanda_raw)) < maxTokenSize"
    by (simp add: codec_lossy text_of_def line_replaced_facts)
  have changed: "GetAllTandas (\<lambda>f. False) json_lossy
        (table (imp_world (ImportFromJSONL (env_ok json_lossy)
           (exp_syncer (ExportToJSONL (env_ok json_lossy) (New log_path) world_raw))
           (exp_world (ExportToJSONL (env_ok json_lossy) (New log_path) world_raw)))))
       = Inr [tanda_replaced]"
    unfolding import_after_export_raw(2)
    by (simp add: GetAllTandas_def order_by_updated_at_desc_def scan_new_row_lossy)
  have titles: "Title tanda_raw = ''caf'' @ [CHR 0xE9]"
    "Title tanda_replaced = ''caf'' @ [CHR 0xEF, CHR 0xBF, CHR 0xBD]"
    by (simp_all add: tanda_raw_def tanda_replaced_def)
  have differ: "tanda_replaced \<noteq> tanda_raw"
  proof
    assume "tanda_replaced = tanda_raw"
    then have "Title tanda_replaced = Title tanda_raw" by simp
    then show False unfolding titles by simp
  qed
  show ?thesis
    using roundtrip_long len GetAll_world_long export_long(1) import_after_export_long(1) empty
      GetAll_world_raw short export_raw(1) import_after_export_raw(1) changed titles differ
    by blast
qed


section \<open>The tests of the repository\<close>

text \<open>
  The model agrees with the repository's tests: after one upsert \<open>GetAllTandas\<close> returns
  one record and after the delete none (\<open>TestUpsertAndDelete\<close>); after \<open>ClearAll\<close> it
  returns none (\<open>TestClearAll\<close>); the import of a log of one parsable line leaves one
  record (\<open>TestImportFromJSONL\<close>); the export of a store of one record writes a file that
  is not empty (\<open>TestExportToJSONL\<close>).
\<close>

lemma test_upsert_and_delete:
  "UpsertTanda (\<lambda>f. False) J t [] = Inr [new_row J t]"
  "GetAllTandas (\<lambda>f. False) J [new_row J t] = Inr [scan_row J (new_row J t)]"
  "GetAllTandas (\<lambda>f. False) J (DeleteTanda (ID t) [new_row J t]) = Inr []"
  by (simp_all add: UpsertTanda_def GetAllTandas_def DeleteTanda_def
        order_by_updated_at_desc_def)

lemma test_clear_all:
  "ClearAll (\<lambda>f. False) tbl = Inr []"
  "GetAllTandas (\<lambda>f. False) J [] = Inr []"
  by (simp_all add: ClearAll_def GetAllTandas_def order_by_updated_at_desc_def)

lemma test_import_from_jsonl:
  "imp_err (ImportFromJSONL (env_ok json_example) (New log_path) world_v2) = None"
  "length (table (imp_world (ImportFromJSONL (env_ok json_example) (New log_path) world_v2))) = 1"
  by (simp_all add: ImportFromJSONL_def env_ok_def New_def log_path_def world_v2_def ClearAll_def
        Let_def maxTokenSize_gt dropCR_def unmarshal_examples UpsertTanda_def)

lemma test_export_to_jsonl:
  assumes "exp_err (ExportToJSONL E s w) = None"
    and "GetAllTandas (faults E) (codec E) (table w) = Inr (t # ts)"
    and "jsonlPath s \<notin> set (TempNames E (Dir E (jsonlPath s)) ''issues-*.jsonl.tmp'')"
  shows "\<exists>content. files (exp_world (ExportToJSONL E s w)) (jsonlPath s) = Some content
                   \<and> content \<noteq> []"
proof (cases "CreateTemp E (files w) (Dir E (jsonlPath s)) ''issues-*.jsonl.tmp''")
  case None
  then show ?thesis using assms by (simp add: ExportToJSONL_def)
next
  case (Some tmp)
  have fresh: "files w tmp = None" and ne: "tmp \<noteq> jsonlPath s"
    using CreateTemp_Some [OF Some] assms(3) by auto
  show ?thesis
  proof (cases "write_all E (t # ts) []")
    case (Inl e)
    then show ?thesis using assms Some by (simp add: ExportToJSONL_def Let_def)
  next
    case (Inr buf)
    have "buf = jsonl_of (codec E) (t # ts)"
      using write_all_Inr [OF Inr] by simp
    then have "buf \<noteq> []" by (simp add: jsonl_of_def)
    then show ?thesis
      using assms Some Inr fresh ne
      by (simp add: ExportToJSONL_def Let_def Rename_written split: if_splits)
  qed
qed


end
